theory Spec2Isabelle
  imports
    Complex_Main
    "HOL-Library.Multiset"
    "HOL-Library.Product_Lexorder"
    "HOL-Library.List_Lexorder"
    "HOL-Library.Char_ord"
begin

section \<open>Data model\<close>

text \<open>
  \<^verbatim>\<open>models.py\<close>: a \<^verbatim>\<open>Transaction\<close> row has the columns \<^verbatim>\<open>user_id\<close>, \<^verbatim>\<open>date\<close>,
  \<^verbatim>\<open>amount\<close>, \<^verbatim>\<open>ttype\<close> and \<^verbatim>\<open>category\<close> (the columns \<^verbatim>\<open>id\<close> and \<^verbatim>\<open>description\<close> are
  never read by \<^verbatim>\<open>ml/recommender.py\<close>). The column \<^verbatim>\<open>amount\<close> is a \<^verbatim>\<open>db.Float\<close>. The
  record holds the amount as entered, a real number, and the program is given twice:
  first on the reals, where sums, products and quotients are the exact ones (no
  rounding, no NaN, no infinity), then on binary64 values (the definitions whose names
  end in \<open>64\<close>), where every amount and every result is rounded as Python and numpy
  round it. What depends on the rounding, on the order of the additions or on overflow
  is stated on the binary64 program. Strings are byte strings in UTF-8, whose
  lexicographic order is the order of Python's \<^verbatim>\<open>str\<close>.
\<close>

record pydate =
  year :: nat
  month :: nat
  day :: nat

record transaction =
  user_id :: nat
  date :: pydate
  amount :: real
  ttype :: string
  category :: string

text \<open>
  What the source can raise, and the values pandas produces where the reals have none:
  \<^verbatim>\<open>iloc[-1]\<close> on an empty series raises \<^verbatim>\<open>IndexError\<close>, \<^verbatim>\<open>LinearRegression.fit\<close> on
  zero samples raises \<^verbatim>\<open>ValueError\<close>; a division by zero and the mean or maximum of an
  empty series (NaN or infinity in numpy) are errors of the model too.
\<close>

datatype py_error = IndexError | ValueError | ZeroDivisionError | NotANumber

section \<open>The data frame of one user\<close>

text \<open>
  \<^verbatim>\<open>_query_user_df(user_id)\<close> reads the rows of the user from the database and returns
  them as a data frame with the columns \<^verbatim>\<open>date\<close>, \<^verbatim>\<open>amount\<close>, \<^verbatim>\<open>type\<close>, \<^verbatim>\<open>category\<close>; the
  database is the first argument of the model.
\<close>

definition query_user_df :: "transaction list \<Rightarrow> nat \<Rightarrow> transaction list" where
  "query_user_df db uid = filter (\<lambda>r. user_id r = uid) db"

text \<open>\<^verbatim>\<open>df[df['type']=='expense']\<close> and \<^verbatim>\<open>df[df['type']=='income']\<close>.\<close>

definition expense_rows :: "transaction list \<Rightarrow> transaction list" where
  "expense_rows df = filter (\<lambda>r. ttype r = ''expense'') df"

definition income_rows :: "transaction list \<Rightarrow> transaction list" where
  "income_rows df = filter (\<lambda>r. ttype r = ''income'') df"

text \<open>
  \<^verbatim>\<open>expenses['date'].dt.to_period('M').astype(str)\<close>: the month token \<^verbatim>\<open>YYYY-MM\<close>. On
  four-digit years the order of the tokens is the order of the pairs (year, month). The
  conversions \<^verbatim>\<open>pd.to_datetime\<close> and \<^verbatim>\<open>to_period\<close> are taken as total: the model puts no
  bound on the dates.
\<close>

definition ym :: "transaction \<Rightarrow> nat \<times> nat" where
  "ym r = (year (date r), month (date r))"

text \<open>
  \<^verbatim>\<open>rows.groupby(key)[val].sum()\<close>: one entry for each key that occurs, in ascending
  order of the keys (pandas sorts the groups), holding the sum of the group. The sum
  here is the exact one, which does not depend on the order of the rows; the binary64
  sum of the code, which does, is in \<open>groupby_sum64\<close>.
\<close>

definition groupby_sum :: "('r \<Rightarrow> 'k::linorder) \<Rightarrow> ('r \<Rightarrow> real) \<Rightarrow> 'r list \<Rightarrow> ('k \<times> real) list" where
  "groupby_sum key val rows =
     map (\<lambda>k. (k, sum_list (map val (filter (\<lambda>r. key r = k) rows))))
       (sort (remdups (map key rows)))"

text \<open>
  \<^verbatim>\<open>series.sort_values(ascending=False)\<close>: pandas reverses the values, sorts them
  ascending and reverses the result, so that equal values keep their order.
\<close>

definition sort_values_desc :: "('k \<times> real) list \<Rightarrow> ('k \<times> real) list" where
  "sort_values_desc s = rev (sort_key snd (rev s))"

text \<open>\<^verbatim>\<open>series.iloc[-1]\<close>, \<^verbatim>\<open>series.mean()\<close>, \<^verbatim>\<open>series.max()\<close> and a guarded division.\<close>

definition iloc_last :: "real list \<Rightarrow> py_error + real" where
  "iloc_last s = (case s of [] \<Rightarrow> Inl IndexError | _ # _ \<Rightarrow> Inr (last s))"

definition py_div :: "real \<Rightarrow> real \<Rightarrow> py_error + real" where
  "py_div a b = (if b = 0 then Inl ZeroDivisionError else Inr (a / b))"

definition series_mean :: "real list \<Rightarrow> py_error + real" where
  "series_mean s = (if s = [] then Inl NotANumber else py_div (sum_list s) (real (length s)))"

definition series_max :: "real list \<Rightarrow> py_error + real" where
  "series_max s = (case s of [] \<Rightarrow> Inl NotANumber | x # xs \<Rightarrow> Inr (fold max xs x))"

section \<open>Linear regression\<close>

text \<open>
  \<^verbatim>\<open>LinearRegression().fit(X, y)\<close> of scikit-learn with one feature: both columns are
  centred, the slope is the least-squares solution on the centred data (the one of least
  norm, 0, when all x are equal) and the intercept is \<^verbatim>\<open>mean(y) - coef * mean(X)\<close>. The
  result is the pair (coef, intercept). This is the fit in exact arithmetic. The fit of
  the code rounds inside scikit-learn's solver, so that its last digits are the
  library's (on the totals 100 and 200 the exact line reads 300 at index 3, the solver's
  need not); it is \<open>fit64\<close>, whose solver is a parameter.
\<close>

definition linreg_fit :: "real list \<Rightarrow> real list \<Rightarrow> py_error + (real \<times> real)" where
  "linreg_fit X y =
     (if X = [] \<or> length X \<noteq> length y then Inl ValueError
      else
        case series_mean X of Inl e \<Rightarrow> Inl e | Inr x_mean \<Rightarrow>
       (case series_mean y of Inl e \<Rightarrow> Inl e | Inr y_mean \<Rightarrow>
          let sxx = sum_list (map (\<lambda>x. (x - x_mean) * (x - x_mean)) X);
              sxy = sum_list (map (\<lambda>(x, v). (x - x_mean) * (v - y_mean)) (zip X y));
              coef = (if sxx = 0 then 0 else sxy / sxx)
          in Inr (coef, y_mean - coef * x_mean)))"

definition linreg_predict :: "real \<times> real \<Rightarrow> real \<Rightarrow> real" where
  "linreg_predict model x = fst model * x + snd model"

section \<open>The forecast\<close>

definition predict_next_month_expense :: "transaction list \<Rightarrow> nat \<Rightarrow> py_error + real" where
  "predict_next_month_expense db uid =
     (let df = query_user_df db uid in
      if df = [] then Inr 0
      else
        let expenses = expense_rows df in
        if expenses = [] then Inr 0
        else
          let m = groupby_sum ym amount expenses in
          if length m < 2 then
            (if length m \<noteq> 0 then iloc_last (map snd m) else Inr 0)
          else
            let idx = map real [1..<length m + 1];
                y = map snd m
            in case linreg_fit idx y of Inl e \<Rightarrow> Inl e | Inr model \<Rightarrow>
              (case series_max idx of Inl e \<Rightarrow> Inl e | Inr mx \<Rightarrow>
                 let next_idx = mx + 1;
                     pred = linreg_predict model next_idx
                 in Inr (max pred 0)))"

section \<open>Formatting\<close>

text \<open>
  Python's \<^verbatim>\<open>f'{v:.0f}'\<close> and \<^verbatim>\<open>f'{v:.1f}'\<close>: the value is rounded to the nearest
  multiple of 1 (of 0.1), a tie going to the even neighbour, and printed in decimal with
  a minus sign when it is negative.
\<close>

definition round_half_even :: "real \<Rightarrow> int" where
  "round_half_even x =
     (let f = \<lfloor>x\<rfloor>; d = x - of_int f
      in if d < 1 / 2 then f else if 1 / 2 < d then f + 1 else if even f then f else f + 1)"

definition digit_char :: "nat \<Rightarrow> char" where
  "digit_char n = ''0123456789'' ! n"

fun digits10 :: "nat \<Rightarrow> string" where
  "digits10 n = (if n < 10 then [digit_char n] else digits10 (n div 10) @ [digit_char (n mod 10)])"

declare digits10.simps [simp del]

definition fmt_f0 :: "real \<Rightarrow> string" where
  "fmt_f0 v = (if v < 0 then ''-'' else []) @ digits10 (nat (round_half_even \<bar>v\<bar>))"

definition fmt_f1 :: "real \<Rightarrow> string" where
  "fmt_f1 v =
     (let n = nat (round_half_even (\<bar>v\<bar> * 10))
      in (if v < 0 then ''-'' else []) @ digits10 (n div 10) @ ''.'' @ [digit_char (n mod 10)])"


text \<open>The rupee sign U+20B9 in UTF-8.\<close>

definition rupee :: string where
  "rupee = [CHR 0xE2, CHR 0x82, CHR 0xB9]"

section \<open>The messages\<close>

definition msg_no_data :: string where
  "msg_no_data = ''Add at least 2 months of data to get personalized savings insights.''"

definition msg_savings_rate :: "real \<Rightarrow> string" where
  "msg_savings_rate savings_rate =
     ''Your overall savings rate is '' @ fmt_f1 (savings_rate * 100)
       @ ''%. Aim for 20%+ as a baseline.''"

definition msg_add_income :: string where
  "msg_add_income = ''Add income entries to compute your savings rate.''"

definition msg_category :: "string \<Rightarrow> real \<Rightarrow> string" where
  \<open>msg_category c v =
     ''High spend in "'' @ c @ ''" category: '' @ rupee @ fmt_f0 v
       @ ''. Consider setting a monthly cap or finding cheaper alternatives.''\<close>

definition msg_volatility :: string where
  "msg_volatility =
     ''Last month's expenses exceeded your previous average by 20%+. Review discretionary categories.''"

definition msg_pred_target :: "real \<Rightarrow> real \<Rightarrow> string" where
  "msg_pred_target pred target_save =
     ''Predicted next month expense: '' @ rupee @ fmt_f0 pred
       @ ''. Set a savings target of at least '' @ rupee @ fmt_f0 target_save @ ''.''"

definition msg_pred_only :: "real \<Rightarrow> string" where
  "msg_pred_only pred =
     ''Predicted next month expense: '' @ rupee @ fmt_f0 pred
       @ ''. Add income to compute a savings target.''"

section \<open>The recommendations\<close>

text \<open>
  \<^verbatim>\<open>generate_recommendations\<close> appends to the list \<^verbatim>\<open>recs\<close> in four steps after the guard
  on the empty data frame; each step takes the list and returns the extended one.
\<close>

definition rule_savings_rate :: "real \<Rightarrow> real \<Rightarrow> string list \<Rightarrow> py_error + string list" where
  "rule_savings_rate total_income total_expense recs =
     (if total_income > 0 then
        case py_div (total_income - total_expense) total_income of
          Inl e \<Rightarrow> Inl e
        | Inr q \<Rightarrow> let savings_rate = max q 0 in Inr (recs @ [msg_savings_rate savings_rate])
      else Inr (recs @ [msg_add_income]))"

definition category_totals :: "transaction list \<Rightarrow> (string \<times> real) list" where
  "category_totals df = groupby_sum category amount (expense_rows df)"

definition top3 :: "transaction list \<Rightarrow> (string \<times> real) list" where
  "top3 df = take 3 (sort_values_desc (category_totals df))"

definition rule_top_categories :: "transaction list \<Rightarrow> string list \<Rightarrow> string list" where
  "rule_top_categories df recs = recs @ map (\<lambda>(c, v). msg_category c v) (top3 df)"

text \<open>
  The volatility rule with the exact product \<open>1.2 * prev_avg\<close>; the code compares with the
  rounded product of the binary64 constant nearest to 1.2, which is \<open>rule_volatility64\<close>.
\<close>

definition rule_volatility :: "transaction list \<Rightarrow> string list \<Rightarrow> py_error + string list" where
  "rule_volatility df recs =
     (if expense_rows df \<noteq> [] then
        let expenses = expense_rows df;
            monthly = map snd (groupby_sum ym amount expenses)
        in if length monthly \<ge> 2 then
             case iloc_last monthly of Inl e \<Rightarrow> Inl e | Inr lst \<Rightarrow>
            (case series_mean (butlast monthly) of Inl e \<Rightarrow> Inl e | Inr prev_avg \<Rightarrow>
               if lst > 1.2 * prev_avg then Inr (recs @ [msg_volatility]) else Inr recs)
           else Inr recs
      else Inr recs)"

definition rule_forecast :: "transaction list \<Rightarrow> nat \<Rightarrow> real \<Rightarrow> string list \<Rightarrow> py_error + string list" where
  "rule_forecast db uid total_income recs =
     (case predict_next_month_expense db uid of
        Inl e \<Rightarrow> Inl e
      | Inr pred \<Rightarrow>
          if total_income > 0 then
            let target_save = max (total_income * 0.2) 0
            in Inr (recs @ [msg_pred_target pred target_save])
          else Inr (recs @ [msg_pred_only pred]))"

definition total_income_of :: "transaction list \<Rightarrow> real" where
  "total_income_of df = sum_list (map amount (income_rows df))"

definition total_expense_of :: "transaction list \<Rightarrow> real" where
  "total_expense_of df = sum_list (map amount (expense_rows df))"

definition generate_recommendations :: "transaction list \<Rightarrow> nat \<Rightarrow> py_error + string list" where
  "generate_recommendations db uid =
     (let df = query_user_df db uid; recs = [] in
      if df = [] then Inr (recs @ [msg_no_data])
      else
        let total_income = total_income_of df;
            total_expense = total_expense_of df
        in case rule_savings_rate total_income total_expense recs of
             Inl e \<Rightarrow> Inl e
           | Inr recs1 \<Rightarrow>
               let recs2 = rule_top_categories df recs1
               in (case rule_volatility df recs2 of
                     Inl e \<Rightarrow> Inl e
                   | Inr recs3 \<Rightarrow> rule_forecast db uid total_income recs3))"

section \<open>The monthly expense series\<close>

text \<open>
  The series both functions compute from the data frame: the expense totals of the
  months that have an expense, in ascending order of the month.
\<close>

definition monthly_expense_series :: "transaction list \<Rightarrow> nat \<Rightarrow> ((nat \<times> nat) \<times> real) list" where
  "monthly_expense_series db uid = groupby_sum ym amount (expense_rows (query_user_df db uid))"

definition monthly_amounts :: "transaction list \<Rightarrow> nat \<Rightarrow> real list" where
  "monthly_amounts db uid = map snd (monthly_expense_series db uid)"

section \<open>Least squares\<close>

text \<open>
  The sum of the squared residuals of the line \<open>a * i + b\<close> on the monthly totals, the
  months numbered 1, 2, ... in their order; and the same sum on any list of points.
\<close>

definition sse :: "real list \<Rightarrow> real \<Rightarrow> real \<Rightarrow> real" where
  "sse ys a b =
     sum_list (map (\<lambda>(i, v). (v - (a * real i + b))\<^sup>2) (zip [1..<length ys + 1] ys))"

definition sq_residuals :: "(real \<times> real) list \<Rightarrow> real \<Rightarrow> real \<Rightarrow> real" where
  "sq_residuals ps a b = sum_list (map (\<lambda>(x, v). (v - (a * x + b))\<^sup>2) ps)"

section \<open>Example databases\<close>

text \<open>
  Rows are written \<open>tx user (year, month, day) amount type category\<close>. In \<open>db_rising\<close>
  user 7 has expenses in November 2023 (100) and February 2024 (200) only, in
  \<open>db_falling\<close> 500 and then 100, in \<open>db_spike\<close> and \<open>db_flat\<close> three months of 100 and
  then 300 or 110, beside rows of income and rows of user 8.
\<close>

definition tx :: "nat \<Rightarrow> nat \<times> nat \<times> nat \<Rightarrow> real \<Rightarrow> string \<Rightarrow> string \<Rightarrow> transaction" where
  "tx u d a t c =
     \<lparr>user_id = u, date = \<lparr>year = fst d, month = fst (snd d), day = snd (snd d)\<rparr>,
      amount = a, ttype = t, category = c\<rparr>"

definition db_rising :: "transaction list" where
  "db_rising =
     [tx 7 (2024, 2, 3) 150 ''expense'' ''Rent'',
      tx 7 (2023, 11, 9) 60 ''expense'' ''Food'',
      tx 8 (2024, 1, 9) 999 ''expense'' ''Food'',
      tx 7 (2024, 2, 20) 50 ''expense'' ''Food'',
      tx 7 (2023, 11, 28) 40 ''expense'' ''Travel'',
      tx 7 (2023, 12, 30) 1000 ''income'' ''Salary'']"

definition db_single :: "transaction list" where
  "db_single =
     [tx 7 (2024, 3, 3) 120 ''expense'' ''Rent'',
      tx 8 (2024, 1, 9) 999 ''expense'' ''Food'',
      tx 7 (2024, 3, 20) 30 ''expense'' ''Food'',
      tx 7 (2024, 2, 28) 2000 ''income'' ''Salary'']"


definition db_saver :: "transaction list" where
  "db_saver =
     [tx 7 (2024, 1, 1) 1000 ''income'' ''Salary'',
      tx 7 (2024, 1, 5) 500 ''expense'' ''Rent'',
      tx 7 (2024, 1, 9) 300 ''expense'' ''Food'',
      tx 8 (2024, 1, 9) 70 ''expense'' ''Food'']"

definition db_spike :: "transaction list" where
  "db_spike =
     [tx 7 (2024, 4, 2) 250 ''expense'' ''Travel'',
      tx 8 (2024, 5, 1) 5 ''expense'' ''Food'',
      tx 7 (2024, 1, 5) 100 ''expense'' ''Food'',
      tx 7 (2024, 4, 9) 900 ''income'' ''Salary'',
      tx 7 (2024, 3, 9) 100 ''expense'' ''Food'',
      tx 7 (2024, 4, 28) 50 ''expense'' ''Food'',
      tx 7 (2024, 2, 9) 100 ''expense'' ''Food'']"

definition db_flat :: "transaction list" where
  "db_flat =
     [tx 7 (2024, 1, 5) 100 ''expense'' ''Food'',
      tx 8 (2024, 4, 2) 900 ''expense'' ''Travel'',
      tx 7 (2024, 2, 9) 100 ''expense'' ''Food'',
      tx 7 (2024, 3, 9) 100 ''expense'' ''Food'',
      tx 7 (2024, 4, 20) 5000 ''income'' ''Salary'',
      tx 7 (2024, 4, 2) 110 ''expense'' ''Travel'']"


section \<open>Binary64 arithmetic\<close>

text \<open>
  The amounts are \<^verbatim>\<open>db.Float\<close> columns and every number the source computes is a Python
  \<^verbatim>\<open>float\<close> or a \<^verbatim>\<open>numpy.float64\<close>: an IEEE 754 binary64 value. Such a value is a finite
  real with a 53-bit significand, an infinity or NaN (the two zeros are not told apart).
  Every operation returns the exact result rounded to the nearest such value, a tie
  going to the even significand.
\<close>

datatype f64 = Fin real | PInf | NInf | NaN

text \<open>
  Scaling a positive real into the range of the significand: \<open>norm_up\<close> halves it while it
  is \<open>2^53\<close> or more and the unit in the last place is below \<open>2^971\<close>, \<open>norm_down\<close> doubles
  it while it is below \<open>2^52\<close> and the unit is above \<open>2^-1074\<close> (below that, subnormal
  numbers keep the smallest unit). The second component is the unit.
\<close>

function norm_up :: "real \<Rightarrow> real \<Rightarrow> int \<Rightarrow> real \<times> real" where
  "norm_up x q k = (if x < 2 ^ 53 \<or> k \<le> 0 then (x, q) else norm_up (x / 2) (q * 2) (k - 1))"
  by pat_completeness auto
termination
  by (relation "measure (\<lambda>(x, q, k). nat k)") auto

function norm_down :: "real \<Rightarrow> real \<Rightarrow> int \<Rightarrow> real \<times> real" where
  "norm_down x q k = (if 2 ^ 52 \<le> x \<or> k \<le> 0 then (x, q) else norm_down (x * 2) (q / 2) (k - 1))"
  by pat_completeness auto
termination
  by (relation "measure (\<lambda>(x, q, k). nat k)") auto

declare norm_up.simps [simp del] norm_down.simps [simp del]

text \<open>Rounding a real to binary64; a result of \<open>2^1024\<close> or more is an infinity.\<close>

definition fl :: "real \<Rightarrow> f64" where
  "fl x =
     (if x = 0 then Fin 0
      else
        let (m, q) = (if 2 ^ 53 \<le> \<bar>x\<bar> then norm_up \<bar>x\<bar> 1 971 else norm_down \<bar>x\<bar> 1 1074);
            y = of_int (round_half_even m) * q
        in if 2 ^ 1024 \<le> y then (if 0 < x then PInf else NInf)
           else Fin (if 0 < x then y else - y))"

definition is_finite :: "f64 \<Rightarrow> bool" where
  "is_finite v = (case v of Fin x \<Rightarrow> True | _ \<Rightarrow> False)"

definition is_negative :: "f64 \<Rightarrow> bool" where
  "is_negative v = (case v of Fin x \<Rightarrow> x < 0 | NInf \<Rightarrow> True | _ \<Rightarrow> False)"

fun f64_neg :: "f64 \<Rightarrow> f64" where
  "f64_neg (Fin x) = Fin (- x)"
| "f64_neg PInf = NInf"
| "f64_neg NInf = PInf"
| "f64_neg NaN = NaN"

fun f64_add :: "f64 \<Rightarrow> f64 \<Rightarrow> f64" where
  "f64_add (Fin a) (Fin b) = fl (a + b)"
| "f64_add NaN b = NaN"
| "f64_add a NaN = NaN"
| "f64_add PInf NInf = NaN"
| "f64_add NInf PInf = NaN"
| "f64_add PInf b = PInf"
| "f64_add NInf b = NInf"
| "f64_add a PInf = PInf"
| "f64_add a NInf = NInf"

definition f64_sub :: "f64 \<Rightarrow> f64 \<Rightarrow> f64" where
  "f64_sub a b = f64_add a (f64_neg b)"

fun f64_mul :: "f64 \<Rightarrow> f64 \<Rightarrow> f64" where
  "f64_mul (Fin a) (Fin b) = fl (a * b)"
| "f64_mul NaN b = NaN"
| "f64_mul a NaN = NaN"
| "f64_mul a b =
     (if a = Fin 0 \<or> b = Fin 0 then NaN
      else if is_negative a = is_negative b then PInf else NInf)"

text \<open>
  Division of \<^verbatim>\<open>numpy.float64\<close> values: a zero divisor gives an infinity or NaN (and a
  warning), never an exception.
\<close>

fun f64_div :: "f64 \<Rightarrow> f64 \<Rightarrow> f64" where
  "f64_div (Fin a) (Fin b) =
     (if b = 0 then (if a = 0 then NaN else if 0 < a then PInf else NInf) else fl (a / b))"
| "f64_div NaN b = NaN"
| "f64_div a NaN = NaN"
| "f64_div (Fin a) b = Fin 0"
| "f64_div a (Fin b) = (if is_negative a = (b < 0) then PInf else NInf)"
| "f64_div a b = NaN"

fun f64_lt :: "f64 \<Rightarrow> f64 \<Rightarrow> bool" where
  "f64_lt (Fin a) (Fin b) = (a < b)"
| "f64_lt NaN b = False"
| "f64_lt a NaN = False"
| "f64_lt NInf b = (b \<noteq> NInf)"
| "f64_lt a PInf = (a \<noteq> PInf)"
| "f64_lt a b = False"

definition f64_gt :: "f64 \<Rightarrow> f64 \<Rightarrow> bool" where
  "f64_gt a b = f64_lt b a"

text \<open>Python's \<^verbatim>\<open>max(a, b)\<close>: the first argument unless the second is greater.\<close>

definition py_max :: "f64 \<Rightarrow> f64 \<Rightarrow> f64" where
  "py_max a b = (if f64_gt b a then b else a)"

section \<open>Printing binary64 values\<close>

text \<open>Python prints the infinities and NaN as \<^verbatim>\<open>inf\<close>, \<^verbatim>\<open>-inf\<close> and \<^verbatim>\<open>nan\<close> in every format.\<close>

definition fmt64_f0 :: "f64 \<Rightarrow> string" where
  "fmt64_f0 v = (case v of Fin x \<Rightarrow> fmt_f0 x | PInf \<Rightarrow> ''inf'' | NInf \<Rightarrow> ''-inf'' | NaN \<Rightarrow> ''nan'')"

definition fmt64_f1 :: "f64 \<Rightarrow> string" where
  "fmt64_f1 v = (case v of Fin x \<Rightarrow> fmt_f1 x | PInf \<Rightarrow> ''inf'' | NInf \<Rightarrow> ''-inf'' | NaN \<Rightarrow> ''nan'')"

section \<open>The numeric routines of the libraries\<close>

text \<open>
  The source adds, averages and fits through pandas, numpy and scikit-learn. The order
  and the rounding of the additions inside these routines are theirs, so the binary64
  model takes them as parameters:
  \<^item> \<open>lib_group_sum\<close>: \<^verbatim>\<open>groupby(...)['amount'].sum()\<close> on the amounts of one group, in the
    order of the rows;
  \<^item> \<open>lib_sum\<close>: \<^verbatim>\<open>Series.sum()\<close>;
  \<^item> \<open>lib_mean\<close>: \<^verbatim>\<open>Series.mean()\<close>;
  \<^item> \<open>lib_lstsq\<close>: the least-squares solver that \<^verbatim>\<open>LinearRegression().fit\<close> runs once it
    has accepted its input; it may raise;
  \<^item> \<open>lib_predict\<close>: \<^verbatim>\<open>model.predict\<close> on one sample.
\<close>

record numlib =
  lib_group_sum :: "f64 list \<Rightarrow> f64"
  lib_sum :: "f64 list \<Rightarrow> f64"
  lib_mean :: "f64 list \<Rightarrow> f64"
  lib_lstsq :: "f64 list \<Rightarrow> f64 list \<Rightarrow> py_error + f64 \<times> f64"
  lib_predict :: "f64 \<times> f64 \<Rightarrow> f64 \<Rightarrow> f64"

section \<open>The program on binary64 values\<close>

text \<open>The stored amount: the binary64 value nearest to the amount entered.\<close>

definition amount64 :: "transaction \<Rightarrow> f64" where
  "amount64 r = fl (amount r)"

definition groupby_sum64 ::
  "numlib \<Rightarrow> (transaction \<Rightarrow> 'k::linorder) \<Rightarrow> transaction list \<Rightarrow> ('k \<times> f64) list" where
  "groupby_sum64 lib key rows =
     map (\<lambda>k. (k, lib_group_sum lib (map amount64 (filter (\<lambda>r. key r = k) rows))))
       (sort (remdups (map key rows)))"

definition iloc_last64 :: "f64 list \<Rightarrow> py_error + f64" where
  "iloc_last64 s = (case s of [] \<Rightarrow> Inl IndexError | _ # _ \<Rightarrow> Inr (last s))"

definition idx_max :: "nat list \<Rightarrow> py_error + nat" where
  "idx_max s = (case s of [] \<Rightarrow> Inl NotANumber | x # xs \<Rightarrow> Inr (fold max xs x))"

text \<open>
  \<^verbatim>\<open>LinearRegression().fit(X, y)\<close> validates its input before it solves: an empty sample
  and an infinity or NaN in \<^verbatim>\<open>X\<close> or \<^verbatim>\<open>y\<close> raise \<^verbatim>\<open>ValueError\<close>.
\<close>

definition fit64 :: "numlib \<Rightarrow> f64 list \<Rightarrow> f64 list \<Rightarrow> py_error + f64 \<times> f64" where
  "fit64 lib X y =
     (if X = [] \<or> length X \<noteq> length y then Inl ValueError
      else if \<not> list_all is_finite X \<or> \<not> list_all is_finite y then Inl ValueError
      else lib_lstsq lib X y)"

definition predict_next_month_expense64 ::
  "numlib \<Rightarrow> transaction list \<Rightarrow> nat \<Rightarrow> py_error + f64" where
  "predict_next_month_expense64 lib db uid =
     (let df = query_user_df db uid in
      if df = [] then Inr (Fin 0)
      else
        let expenses = expense_rows df in
        if expenses = [] then Inr (Fin 0)
        else
          let m = groupby_sum64 lib ym expenses in
          if length m < 2 then
            (if length m \<noteq> 0 then iloc_last64 (map snd m) else Inr (Fin 0))
          else
            let idx = [1..<length m + 1];
                X = map (\<lambda>i. Fin (real i)) idx;
                y = map snd m
            in case fit64 lib X y of Inl e \<Rightarrow> Inl e | Inr model \<Rightarrow>
              (case idx_max idx of Inl e \<Rightarrow> Inl e | Inr mx \<Rightarrow>
                 let next_idx = mx + 1;
                     pred = lib_predict lib model (Fin (real next_idx))
                 in Inr (py_max pred (Fin 0))))"

definition msg_savings_rate64 :: "f64 \<Rightarrow> string" where
  "msg_savings_rate64 savings_rate =
     ''Your overall savings rate is '' @ fmt64_f1 (f64_mul savings_rate (Fin 100))
       @ ''%. Aim for 20%+ as a baseline.''"

definition msg_category64 :: "string \<Rightarrow> f64 \<Rightarrow> string" where
  \<open>msg_category64 c v =
     ''High spend in "'' @ c @ ''" category: '' @ rupee @ fmt64_f0 v
       @ ''. Consider setting a monthly cap or finding cheaper alternatives.''\<close>

definition msg_pred_target64 :: "f64 \<Rightarrow> f64 \<Rightarrow> string" where
  "msg_pred_target64 pred target_save =
     ''Predicted next month expense: '' @ rupee @ fmt64_f0 pred
       @ ''. Set a savings target of at least '' @ rupee @ fmt64_f0 target_save @ ''.''"

definition msg_pred_only64 :: "f64 \<Rightarrow> string" where
  "msg_pred_only64 pred =
     ''Predicted next month expense: '' @ rupee @ fmt64_f0 pred
       @ ''. Add income to compute a savings target.''"

definition rule_savings_rate64 :: "f64 \<Rightarrow> f64 \<Rightarrow> string list \<Rightarrow> string list" where
  "rule_savings_rate64 total_income total_expense recs =
     (if f64_gt total_income (Fin 0) then
        let savings_rate = py_max (f64_div (f64_sub total_income total_expense) total_income) (Fin 0)
        in recs @ [msg_savings_rate64 savings_rate]
      else recs @ [msg_add_income])"

text \<open>
  \<^verbatim>\<open>sort_values(ascending=False)\<close> on binary64 values: the values that are not NaN in
  descending order, equal values in their order, then the NaN entries.
\<close>

definition f64_key :: "f64 \<Rightarrow> nat \<times> real" where
  "f64_key v = (case v of NInf \<Rightarrow> (0, 0) | Fin x \<Rightarrow> (1, x) | PInf \<Rightarrow> (2, 0) | NaN \<Rightarrow> (3, 0))"

definition sort_values_desc64 :: "('k \<times> f64) list \<Rightarrow> ('k \<times> f64) list" where
  "sort_values_desc64 s =
     rev (sort_key (\<lambda>p. f64_key (snd p)) (rev (filter (\<lambda>p. snd p \<noteq> NaN) s)))
       @ filter (\<lambda>p. snd p = NaN) s"

definition top3_64 :: "numlib \<Rightarrow> transaction list \<Rightarrow> (string \<times> f64) list" where
  "top3_64 lib df = take 3 (sort_values_desc64 (groupby_sum64 lib category (expense_rows df)))"

definition rule_top_categories64 :: "numlib \<Rightarrow> transaction list \<Rightarrow> string list \<Rightarrow> string list" where
  "rule_top_categories64 lib df recs = recs @ map (\<lambda>(c, v). msg_category64 c v) (top3_64 lib df)"

definition rule_volatility64 ::
  "numlib \<Rightarrow> transaction list \<Rightarrow> string list \<Rightarrow> py_error + string list" where
  "rule_volatility64 lib df recs =
     (if expense_rows df \<noteq> [] then
        let expenses = expense_rows df;
            monthly = map snd (groupby_sum64 lib ym expenses)
        in if length monthly \<ge> 2 then
             case iloc_last64 monthly of Inl e \<Rightarrow> Inl e | Inr lst \<Rightarrow>
               let prev_avg = lib_mean lib (butlast monthly)
               in if f64_gt lst (f64_mul (fl 1.2) prev_avg) then Inr (recs @ [msg_volatility])
                  else Inr recs
           else Inr recs
      else Inr recs)"

definition rule_forecast64 ::
  "numlib \<Rightarrow> transaction list \<Rightarrow> nat \<Rightarrow> f64 \<Rightarrow> string list \<Rightarrow> py_error + string list" where
  "rule_forecast64 lib db uid total_income recs =
     (case predict_next_month_expense64 lib db uid of
        Inl e \<Rightarrow> Inl e
      | Inr pred \<Rightarrow>
          if f64_gt total_income (Fin 0) then
            let target_save = py_max (f64_mul total_income (fl 0.2)) (Fin 0)
            in Inr (recs @ [msg_pred_target64 pred target_save])
          else Inr (recs @ [msg_pred_only64 pred]))"

definition generate_recommendations64 ::
  "numlib \<Rightarrow> transaction list \<Rightarrow> nat \<Rightarrow> py_error + string list" where
  "generate_recommendations64 lib db uid =
     (let df = query_user_df db uid; recs = [] in
      if df = [] then Inr (recs @ [msg_no_data])
      else
        let total_income = lib_sum lib (map amount64 (income_rows df));
            total_expense = lib_sum lib (map amount64 (expense_rows df));
            recs1 = rule_savings_rate64 total_income total_expense recs;
            recs2 = rule_top_categories64 lib df recs1
        in case rule_volatility64 lib df recs2 of
             Inl e \<Rightarrow> Inl e
           | Inr recs3 \<Rightarrow> rule_forecast64 lib db uid total_income recs3)"

definition monthly_amounts64 :: "numlib \<Rightarrow> transaction list \<Rightarrow> nat \<Rightarrow> f64 list" where
  "monthly_amounts64 lib db uid =
     map snd (groupby_sum64 lib ym (expense_rows (query_user_df db uid)))"

section \<open>Two instances of the library\<close>

text \<open>
  Additions one after the other in the order of the values (what numpy does on fewer than
  eight values), and the compensated summation of pandas' grouped sum.
\<close>

definition sum_seq :: "f64 list \<Rightarrow> f64" where
  "sum_seq xs = foldl f64_add (Fin 0) xs"

definition kahan_step :: "f64 \<times> f64 \<Rightarrow> f64 \<Rightarrow> f64 \<times> f64" where
  "kahan_step sc val =
     (let y = f64_sub val (snd sc);
          t = f64_add (fst sc) y;
          c = f64_sub (f64_sub t (fst sc)) y
      in (t, if c = NaN then Fin 0 else c))"

definition sum_kahan :: "f64 list \<Rightarrow> f64" where
  "sum_kahan xs = fst (foldl kahan_step (Fin 0, Fin 0) xs)"

definition mean_seq :: "f64 list \<Rightarrow> f64" where
  "mean_seq xs = (if xs = [] then NaN else f64_div (sum_seq xs) (Fin (real (length xs))))"

text \<open>
  A solver in the place of LAPACK's: the closed form on the centred columns, every step
  rounded. The last digits of the real solver may differ; the theorems hold for every
  library, and the examples that use this one only need that it returns.
\<close>

definition lstsq_closed :: "f64 list \<Rightarrow> f64 list \<Rightarrow> py_error + f64 \<times> f64" where
  "lstsq_closed X y =
     (let x_mean = mean_seq X;
          y_mean = mean_seq y;
          sxx = sum_seq (map (\<lambda>x. f64_mul (f64_sub x x_mean) (f64_sub x x_mean)) X);
          sxy = sum_seq (map (\<lambda>(x, v). f64_mul (f64_sub x x_mean) (f64_sub v y_mean)) (zip X y));
          coef = (if sxx = Fin 0 then Fin 0 else f64_div sxy sxx)
      in Inr (coef, f64_sub y_mean (f64_mul coef x_mean)))"

definition predict_closed :: "f64 \<times> f64 \<Rightarrow> f64 \<Rightarrow> f64" where
  "predict_closed model x = f64_add (f64_mul (fst model) x) (snd model)"

definition lib_seq :: numlib where
  "lib_seq = \<lparr>lib_group_sum = sum_seq, lib_sum = sum_seq, lib_mean = mean_seq,
              lib_lstsq = lstsq_closed, lib_predict = predict_closed\<rparr>"

definition lib_kahan :: numlib where
  "lib_kahan = \<lparr>lib_group_sum = sum_kahan, lib_sum = sum_seq, lib_mean = mean_seq,
                lib_lstsq = lstsq_closed, lib_predict = predict_closed\<rparr>"

section \<open>Example databases for the binary64 program\<close>

text \<open>
  In \<open>db_tie\<close> user 7 spends 1, 1, 33 and 14 in four months: 14 is 1.2 times the mean of
  the months before it. In \<open>db_order_a\<close> and \<open>db_order_b\<close> the same rows come in two
  orders; the three expenses of user 7, all of January 2024, are 0.1, 0.2, 0.4 in one and
  0.1, 0.4, 0.2 in the other. \<open>db_rising_shuffled\<close> has the rows of \<open>db_rising\<close> with the
  months, the users and the kinds moved around and the expenses of each month in the
  order they have there. In \<open>db_overflow\<close> two expenses of January are \<open>2^1023\<close> each, a
  binary64 value of about 8.99e307.
\<close>

definition db_tie :: "transaction list" where
  "db_tie =
     [tx 7 (2024, 1, 5) 1 ''expense'' ''Food'',
      tx 7 (2024, 2, 9) 1 ''expense'' ''Food'',
      tx 7 (2024, 3, 9) 33 ''expense'' ''Food'',
      tx 7 (2024, 4, 2) 14 ''expense'' ''Travel'',
      tx 8 (2024, 4, 2) 500 ''expense'' ''Travel'',
      tx 7 (2024, 4, 3) 100 ''income'' ''Salary'']"

definition db_order_a :: "transaction list" where
  "db_order_a =
     [tx 7 (2024, 1, 5) 0.1 ''expense'' ''Food'',
      tx 8 (2024, 1, 6) 0.3 ''expense'' ''Food'',
      tx 7 (2024, 1, 9) 0.2 ''expense'' ''Food'',
      tx 7 (2024, 1, 15) 50 ''income'' ''Salary'',
      tx 7 (2024, 1, 20) 0.4 ''expense'' ''Food'']"

definition db_order_b :: "transaction list" where
  "db_order_b =
     [tx 7 (2024, 1, 5) 0.1 ''expense'' ''Food'',
      tx 7 (2024, 1, 20) 0.4 ''expense'' ''Food'',
      tx 7 (2024, 1, 15) 50 ''income'' ''Salary'',
      tx 7 (2024, 1, 9) 0.2 ''expense'' ''Food'',
      tx 8 (2024, 1, 6) 0.3 ''expense'' ''Food'']"

definition db_rising_shuffled :: "transaction list" where
  "db_rising_shuffled =
     [tx 7 (2023, 12, 30) 1000 ''income'' ''Salary'',
      tx 7 (2023, 11, 9) 60 ''expense'' ''Food'',
      tx 7 (2024, 2, 3) 150 ''expense'' ''Rent'',
      tx 7 (2023, 11, 28) 40 ''expense'' ''Travel'',
      tx 8 (2024, 1, 9) 999 ''expense'' ''Food'',
      tx 7 (2024, 2, 20) 50 ''expense'' ''Food'']"

definition big_amount :: real where
  "big_amount = 2 ^ 1023"

definition db_overflow :: "transaction list" where
  "db_overflow =
     [tx 7 (2024, 1, 5) big_amount ''expense'' ''Rent'',
      tx 8 (2024, 1, 7) 1 ''expense'' ''Food'',
      tx 7 (2024, 1, 9) big_amount ''expense'' ''Rent'',
      tx 7 (2024, 1, 31) 1 ''income'' ''Salary'',
      tx 7 (2024, 2, 9) 1 ''expense'' ''Food'']"

section \<open>The empty data frame\<close>

text \<open>
  C3: for a user without transactions \<^verbatim>\<open>predict_next_month_expense\<close> returns 0.0 and
  \<^verbatim>\<open>generate_recommendations\<close> returns the list of exactly one string, the message that
  asks for data; neither raises.
\<close>

theorem empty_input_guard:
  assumes "query_user_df db uid = []"
  shows "predict_next_month_expense db uid = Inr 0
       \<and> generate_recommendations db uid = Inr [msg_no_data]"
  using assms by (simp add: predict_next_month_expense_def generate_recommendations_def)

theorem empty_input_guard_witness:
  "query_user_df db_rising 9 = []
   \<and> predict_next_month_expense db_rising 9 = Inr 0
   \<and> generate_recommendations db_rising 9
       = Inr [''Add at least 2 months of data to get personalized savings insights.'']"
proof -
  have h: "query_user_df db_rising 9 = []"
    by (simp add: query_user_df_def db_rising_def tx_def)
  from empty_input_guard [OF h] h show ?thesis
    by (simp add: msg_no_data_def)
qed

section \<open>Grouping\<close>

lemma groupby_sum_keys: "map fst (groupby_sum k v rows) = sort (remdups (map k rows))"
  by (simp add: groupby_sum_def comp_def)

lemma length_groupby_sum: "length (groupby_sum k v rows) = card (k ` set rows)"
  by (simp add: groupby_sum_def length_remdups_card_conv)

lemma groupby_sum_Nil_iff: "groupby_sum k v rows = [] \<longleftrightarrow> rows = []"
proof
  assume "groupby_sum k v rows = []"
  then have "card (k ` set rows) = 0"
    using length_groupby_sum [of k v rows] by simp
  then show "rows = []" by simp
next
  assume "rows = []"
  then show "groupby_sum k v rows = []" by (simp add: groupby_sum_def)
qed

lemma groupby_sum_keys_sorted: "sorted (map fst (groupby_sum k v rows))"
  by (simp add: groupby_sum_keys)

lemma groupby_sum_keys_distinct: "distinct (map fst (groupby_sum k v rows))"
  by (simp add: groupby_sum_keys)

lemma groupby_sum_keys_set: "fst ` set (groupby_sum k v rows) = k ` set rows"
  using arg_cong [OF groupby_sum_keys, of set k v rows] by simp

lemma groupby_sum_value:
  "(key, tot) \<in> set (groupby_sum k v rows) \<Longrightarrow>
     tot = sum_list (map v (filter (\<lambda>r. k r = key) rows))"
  by (auto simp: groupby_sum_def)


lemma series_max_Max: "s \<noteq> [] \<Longrightarrow> series_max s = Inr (Max (set s))"
  by (cases s) (simp_all add: series_max_def flip: Max.set_eq_fold)

lemma series_max_upt:
  assumes "1 \<le> n"
  shows "series_max (map real [1..<n + 1]) = Inr (real n)"
proof -
  have "Max (set (map real [1..<n + 1])) = real n"
  proof (rule Max_eqI)
    show "finite (set (map real [1..<n + 1]))" by simp
    show "real n \<in> set (map real [1..<n + 1])" using assms by auto
    show "y \<le> real n" if "y \<in> set (map real [1..<n + 1])" for y
      using that by auto
  qed
  moreover have "map real [1..<n + 1] \<noteq> []" using assms by simp
  ultimately show ?thesis by (simp add: series_max_Max)
qed

lemma linreg_fit_total:
  assumes "X \<noteq> []" and "length X = length y"
  shows "\<exists>model. linreg_fit X y = Inr model"
proof -
  from assms have "y \<noteq> []" by auto
  then have "series_mean y = Inr (sum_list y / real (length y))"
    by (simp add: series_mean_def py_div_def)
  moreover have "series_mean X = Inr (sum_list X / real (length X))"
    using assms(1) by (simp add: series_mean_def py_div_def)
  ultimately show ?thesis
    unfolding linreg_fit_def Let_def using assms by simp
qed


lemma monthly_amounts_Nil_iff:
  "monthly_amounts db uid = [] \<longleftrightarrow> expense_rows (query_user_df db uid) = []"
  by (simp add: monthly_amounts_def monthly_expense_series_def groupby_sum_Nil_iff)

lemma expense_rows_Nil [simp]: "expense_rows [] = []"
  by (simp add: expense_rows_def)

lemma predict_no_series:
  assumes "monthly_amounts db uid = []"
  shows "predict_next_month_expense db uid = Inr 0"
proof -
  have "expense_rows (query_user_df db uid) = []"
    using assms by (simp add: monthly_amounts_Nil_iff)
  then show ?thesis
    by (simp add: predict_next_month_expense_def Let_def)
qed

lemma predict_single:
  assumes "monthly_amounts db uid = [x]"
  shows "predict_next_month_expense db uid = Inr x"
proof -
  let ?df = "query_user_df db uid"
  let ?m = "groupby_sum ym amount (expense_rows ?df)"
  have m: "map snd ?m = [x]"
    using assms by (simp add: monthly_amounts_def monthly_expense_series_def)
  then have len: "length ?m = 1"
    by (metis length_map length_Cons list.size(3) One_nat_def)
  have ne: "expense_rows ?df \<noteq> []"
    using len groupby_sum_Nil_iff [of ym amount "expense_rows ?df"] by auto
  then have "?df \<noteq> []" by auto
  with ne len m show ?thesis
    by (simp add: predict_next_month_expense_def Let_def iloc_last_def)
qed

lemma predict_many:
  assumes "2 \<le> length (monthly_amounts db uid)"
    and "linreg_fit (map real [1..<length (monthly_amounts db uid) + 1]) (monthly_amounts db uid)
           = Inr model"
  shows "predict_next_month_expense db uid
           = Inr (max (linreg_predict model (real (length (monthly_amounts db uid)) + 1)) 0)"
proof -
  let ?df = "query_user_df db uid"
  let ?m = "groupby_sum ym amount (expense_rows ?df)"
  have ys: "monthly_amounts db uid = map snd ?m"
    by (simp add: monthly_amounts_def monthly_expense_series_def)
  have len: "2 \<le> length ?m" using assms(1) by (simp add: ys)
  then have ne: "expense_rows ?df \<noteq> []"
    using groupby_sum_Nil_iff [of ym amount "expense_rows ?df"] by auto
  then have dfne: "?df \<noteq> []" by auto
  have mx: "series_max (map real [1..<length ?m + 1]) = Inr (real (length ?m))"
    using len by (intro series_max_upt) simp
  have fit: "linreg_fit (map real [1..<length ?m + 1]) (map snd ?m) = Inr model"
    using assms(2) by (simp add: ys)
  have nlt: "\<not> length ?m < 2" using len by simp
  show ?thesis
    unfolding predict_next_month_expense_def Let_def
    using ne dfne nlt mx fit by (simp add: ys)
qed

text \<open>
  The monthly expense series is what its name says: the months are those of the user's
  expenses, each once and in ascending order, and each total is the sum of the expenses
  of its month.
\<close>

lemma monthly_expense_series_months:
  "sorted (map fst (monthly_expense_series db uid))"
  "distinct (map fst (monthly_expense_series db uid))"
  "fst ` set (monthly_expense_series db uid) = ym ` set (expense_rows (query_user_df db uid))"
  unfolding monthly_expense_series_def
  by (rule groupby_sum_keys_sorted groupby_sum_keys_distinct groupby_sum_keys_set)+

lemma monthly_expense_series_totals:
  assumes "(k, t) \<in> set (monthly_expense_series db uid)"
  shows "t = sum_list (map amount (filter (\<lambda>r. ym r = k) (expense_rows (query_user_df db uid))))"
  using assms unfolding monthly_expense_series_def by (rule groupby_sum_value)

text \<open>Without their guards the partial operations do fail.\<close>

lemma unguarded_operations_fail:
  "iloc_last [] = Inl IndexError"
  "py_div a 0 = Inl ZeroDivisionError"
  "series_mean [] = Inl NotANumber"
  "series_max [] = Inl NotANumber"
  "linreg_fit [] y = Inl ValueError"
  by (simp_all add: iloc_last_def py_div_def series_mean_def series_max_def linreg_fit_def)

section \<open>The fitted line minimises the squared residuals\<close>

lemma sse_sq_residuals:
  "sse ys a b = sq_residuals (zip (map real [1..<length ys + 1]) ys) a b"
  by (simp add: sse_def sq_residuals_def zip_map1 comp_def case_prod_unfold)

lemma sum_list_shift:
  "sum_list (map (\<lambda>x. x - c) xs) = sum_list xs - real (length xs) * (c::real)"
  by (induction xs) (simp_all add: algebra_simps)

lemma sum_list_zip_fst:
  "length xs = length ys \<Longrightarrow> sum_list (map (\<lambda>(x, v). f x) (zip xs ys)) = sum_list (map f xs)"
  by (induction xs ys rule: list_induct2) simp_all

lemma sum_list_zip_snd:
  "length xs = length ys \<Longrightarrow> sum_list (map (\<lambda>(x, v). f v) (zip xs ys)) = sum_list (map f ys)"
  by (induction xs ys rule: list_induct2) simp_all

lemma sq_residuals_expand:
  fixes xm ym a al be :: real
  shows "sq_residuals ps (a - al) (ym - (a - al) * xm - be + 0) =
     sum_list (map (\<lambda>(x, v). (v - ym - a * (x - xm))\<^sup>2) ps)
     + al\<^sup>2 * sum_list (map (\<lambda>(x, v). (x - xm) * (x - xm)) ps)
     + real (length ps) * be\<^sup>2
     + 2 * al * (sum_list (map (\<lambda>(x, v). (x - xm) * (v - ym)) ps)
                 - a * sum_list (map (\<lambda>(x, v). (x - xm) * (x - xm)) ps))
     + 2 * be * (sum_list (map (\<lambda>(x, v). v - ym) ps) - a * sum_list (map (\<lambda>(x, v). x - xm) ps))
     + 2 * al * be * sum_list (map (\<lambda>(x, v). x - xm) ps)"
proof (induction ps)
  case Nil
  show ?case by (simp add: sq_residuals_def)
next
  case (Cons p ps)
  obtain x v where p: "p = (x, v)" by (cases p)
  have step: "sq_residuals (p # ps) c d = (v - (c * x + d))\<^sup>2 + sq_residuals ps c d" for c d
    by (simp add: sq_residuals_def p)
  show ?case
    unfolding step Cons.IH
    by (simp add: p power2_eq_square algebra_simps)
qed


lemma sum_sq_zero_imp:
  assumes "sum_list (map (\<lambda>x. (x - c) * (x - c)) xs) = (0::real)" and "x \<in> set xs"
  shows "x = c"
proof -
  have "\<forall>t\<in>set (map (\<lambda>x. (x - c) * (x - c)) xs). 0 \<le> t" by auto
  then have "\<forall>t\<in>set (map (\<lambda>x. (x - c) * (x - c)) xs). t = 0"
    using assms(1) sum_list_nonneg_eq_0_iff by blast
  with assms(2) have "(x - c) * (x - c) = 0" by auto
  then show ?thesis by simp
qed

lemma sum_list_all_zero: "\<forall>t\<in>set ts. t = (0::real) \<Longrightarrow> sum_list ts = 0"
  by (induction ts) auto

lemma sxy_zero_if_sxx_zero:
  assumes "length xs = length ys"
    and "sum_list (map (\<lambda>x. (x - c) * (x - c)) xs) = (0::real)"
  shows "sum_list (map (\<lambda>(x, v). (x - c) * (v - d)) (zip xs ys)) = 0"
proof -
  have "\<forall>p\<in>set (zip xs ys). (case p of (x, v) \<Rightarrow> (x - c) * (v - d)) = 0"
    using sum_sq_zero_imp [OF assms(2)] by (auto dest: set_zip_leftD)
  then have "\<forall>t\<in>set (map (\<lambda>(x, v). (x - c) * (v - d)) (zip xs ys)). t = 0"
    by auto
  then show ?thesis by (rule sum_list_all_zero)
qed

text \<open>The fitted line and any other line: the difference of the sums of squares.\<close>

lemma linreg_fit_residuals:
  assumes fit: "linreg_fit X y = Inr (a, b)"
  shows "sq_residuals (zip X y) a' b' =
           sq_residuals (zip X y) a b
           + (a - a')\<^sup>2 * sum_list (map (\<lambda>x. (x - sum_list X / real (length X)) * (x - sum_list X / real (length X))) X)
           + real (length X)
               * (sum_list y / real (length y) - a' * (sum_list X / real (length X)) - b')\<^sup>2"
proof -
  from fit have ne: "X \<noteq> []" and len: "length X = length y"
    by (auto simp: linreg_fit_def split: if_splits)
  then have ney: "y \<noteq> []" by auto
  define n where "n = real (length X)"
  have npos: "0 < n" using ne by (simp add: n_def)
  define xm where "xm = sum_list X / n"
  define ym where "ym = sum_list y / n"
  define sxx where "sxx = sum_list (map (\<lambda>x. (x - xm) * (x - xm)) X)"
  define sxy where "sxy = sum_list (map (\<lambda>(x, v). (x - xm) * (v - ym)) (zip X y))"
  have mx: "series_mean X = Inr xm"
    using ne by (simp add: series_mean_def py_div_def xm_def n_def)
  have my: "series_mean y = Inr ym"
    using ney len by (simp add: series_mean_def py_div_def ym_def n_def)
  define cf where "cf = (if sxx = 0 then 0 else sxy / sxx)"
  have "linreg_fit X y = Inr (cf, ym - cf * xm)"
    using ne len by (simp add: linreg_fit_def mx my Let_def sxx_def sxy_def cf_def)
  with fit have "Inr (a, b) = (Inr (cf, ym - cf * xm) :: py_error + real \<times> real)"
    by (rule trans [OF sym])
  then have "(a, b) = (cf, ym - cf * xm)"
    by (rule Inr_inject)
  then have a': "a = cf" and b: "b = ym - a * xm"
    by blast+
  have a: "a = (if sxx = 0 then 0 else sxy / sxx)"
    by (simp add: a' cf_def)
  have asxx: "a * sxx = sxy"
  proof (cases "sxx = 0")
    case True
    then have "sxy = 0"
      unfolding sxy_def sxx_def using sxy_zero_if_sxx_zero [OF len] by blast
    with True show ?thesis by (simp add: a)
  next
    case False
    then show ?thesis by (simp add: a)
  qed
  have su: "sum_list (map (\<lambda>(x, v). x - xm) (zip X y)) = 0"
    using npos by (simp add: sum_list_zip_fst [OF len] sum_list_shift xm_def n_def)
  have sw: "sum_list (map (\<lambda>(x, v). v - ym) (zip X y)) = 0"
    using npos by (simp add: sum_list_zip_snd [OF len] sum_list_shift ym_def n_def len)
  have suu: "sum_list (map (\<lambda>(x, v). (x - xm) * (x - xm)) (zip X y)) = sxx"
    by (simp add: sum_list_zip_fst [OF len] sxx_def)
  have lz: "real (length (zip X y)) = n" by (simp add: len n_def)
  have gen: "sq_residuals (zip X y) (a - al) (ym - (a - al) * xm - be + 0)
        = sum_list (map (\<lambda>(x, v). (v - ym - a * (x - xm))\<^sup>2) (zip X y))
          + al\<^sup>2 * sxx + n * be\<^sup>2" for al be
    unfolding sq_residuals_expand [of "zip X y" a al ym xm be] su sw suu lz
    using asxx by (simp add: sxy_def)
  have "sq_residuals (zip X y) a' b' = sq_residuals (zip X y) (a - (a - a')) (ym - (a - (a - a')) * xm - (ym - a' * xm - b') + 0)"
    by simp
  also have "\<dots> = sum_list (map (\<lambda>(x, v). (v - ym - a * (x - xm))\<^sup>2) (zip X y))
          + (a - a')\<^sup>2 * sxx + n * (ym - a' * xm - b')\<^sup>2"
    by (rule gen)
  finally have 1: "sq_residuals (zip X y) a' b' =
      sum_list (map (\<lambda>(x, v). (v - ym - a * (x - xm))\<^sup>2) (zip X y))
          + (a - a')\<^sup>2 * sxx + n * (ym - a' * xm - b')\<^sup>2" .
  have "sq_residuals (zip X y) a b = sq_residuals (zip X y) (a - 0) (ym - (a - 0) * xm - 0 + 0)"
    by (simp add: b)
  also have "\<dots> = sum_list (map (\<lambda>(x, v). (v - ym - a * (x - xm))\<^sup>2) (zip X y))
          + 0\<^sup>2 * sxx + n * 0\<^sup>2"
    by (rule gen)
  finally have 2: "sq_residuals (zip X y) a b =
      sum_list (map (\<lambda>(x, v). (v - ym - a * (x - xm))\<^sup>2) (zip X y))" by simp
  show ?thesis
    unfolding 1 2 by (simp add: sxx_def xm_def ym_def n_def len)
qed

lemma sxx_index_pos:
  assumes "2 \<le> n"
  shows "0 < sum_list (map (\<lambda>x. (x - c) * (x - c)) (map real [1..<n + 1]))"
proof -
  let ?X = "map real [1..<n + 1]"
  have "0 \<le> sum_list (map (\<lambda>x. (x - c) * (x - c)) ?X)"
    by (rule sum_list_nonneg) auto
  moreover have "sum_list (map (\<lambda>x. (x - c) * (x - c)) ?X) \<noteq> 0"
  proof
    assume z: "sum_list (map (\<lambda>x. (x - c) * (x - c)) ?X) = 0"
    have "real 1 \<in> set ?X" and "real 2 \<in> set ?X"
      using assms by auto
    then have "real 1 = c" and "real 2 = c"
      using sum_sq_zero_imp [OF z] by blast+
    then show False by simp
  qed
  ultimately show ?thesis by simp
qed

lemma ols_fit_index:
  assumes "2 \<le> length ys"
  shows "\<exists>a b. linreg_fit (map real [1..<length ys + 1]) ys = Inr (a, b)
           \<and> (\<forall>a' b'. sse ys a b \<le> sse ys a' b')
           \<and> (\<forall>a' b'. (\<forall>c d. sse ys a' b' \<le> sse ys c d) \<longrightarrow> a' = a \<and> b' = b)"
proof -
  let ?X = "map real [1..<length ys + 1]"
  have ne: "?X \<noteq> []" and len: "length ?X = length ys"
    using assms by auto
  from linreg_fit_total [OF ne len] obtain a b where fit: "linreg_fit ?X ys = Inr (a, b)"
    by (metis surj_pair)
  define n where "n = real (length ?X)"
  define xm where "xm = sum_list ?X / real (length ?X)"
  define ym where "ym = sum_list ys / real (length ys)"
  define sxx where "sxx = sum_list (map (\<lambda>x. (x - xm) * (x - xm)) ?X)"
  have npos: "0 < n" unfolding n_def len using assms by auto
  have sxxpos: "0 < sxx" unfolding sxx_def using assms by (rule sxx_index_pos)
  have diff: "sse ys a' b' = sse ys a b + (a - a')\<^sup>2 * sxx + n * (ym - a' * xm - b')\<^sup>2"
    for a' b'
    using linreg_fit_residuals [OF fit, of a' b']
    unfolding sse_sq_residuals sxx_def xm_def ym_def n_def .
  have b: "b = ym - a * xm"
  proof -
    from diff [of a b] have "n * (ym - a * xm - b)\<^sup>2 = 0" by simp
    with npos show ?thesis by simp
  qed
  have opt: "sse ys a b \<le> sse ys a' b'" for a' b'
  proof -
    have "0 \<le> (a - a')\<^sup>2 * sxx" and "0 \<le> n * (ym - a' * xm - b')\<^sup>2"
      using sxxpos npos by simp_all
    then show ?thesis unfolding diff [of a' b'] by linarith
  qed
  have uniq: "a' = a \<and> b' = b" if min: "\<forall>c d. sse ys a' b' \<le> sse ys c d" for a' b'
  proof -
    have nn1: "0 \<le> (a - a')\<^sup>2 * sxx" and nn2: "0 \<le> n * (ym - a' * xm - b')\<^sup>2"
      using sxxpos npos by simp_all
    from min have "sse ys a' b' \<le> sse ys a b" by blast
    with diff [of a' b'] nn1 nn2
    have z1: "(a - a')\<^sup>2 * sxx = 0" and z2: "n * (ym - a' * xm - b')\<^sup>2 = 0"
      by linarith+
    from z1 sxxpos have "a' = a" by simp
    moreover from z2 npos have "b' = ym - a' * xm" by simp
    ultimately show ?thesis using b by simp
  qed
  from fit opt uniq show ?thesis by blast
qed

section \<open>The forecast returns\<close>

lemmas eval_defs =
  monthly_amounts_def monthly_expense_series_def groupby_sum_def query_user_df_def
  expense_rows_def income_rows_def ym_def tx_def

lemma predict_total: "\<exists>v. predict_next_month_expense db uid = Inr v"
proof -
  let ?ys = "monthly_amounts db uid"
  consider "?ys = []" | x where "?ys = [x]" | "2 \<le> length ?ys"
    by (cases ?ys rule: list.exhaust; cases "tl ?ys") (auto simp: Suc_le_eq)
  then show ?thesis
  proof cases
    case 1
    then show ?thesis by (simp add: predict_no_series)
  next
    case 2
    then show ?thesis by (simp add: predict_single)
  next
    case 3
    from ols_fit_index [OF 3] obtain a b where
      "linreg_fit (map real [1..<length ?ys + 1]) ?ys = Inr (a, b)" by blast
    from predict_many [OF 3 this] show ?thesis by blast
  qed
qed

section \<open>The forecast on one month\<close>

text \<open>
  C2: when the monthly expense series has exactly one point, of total X, the forecast is
  X itself; no line is fitted.
\<close>

theorem predict_single_month:
  assumes "monthly_expense_series db uid = [(k, X)]"
  shows "predict_next_month_expense db uid = Inr X"
  using assms by (intro predict_single) (simp add: monthly_amounts_def)

theorem predict_single_month_witness:
  "monthly_expense_series db_single 7 = [((2024, 3), 150)]
   \<and> predict_next_month_expense db_single 7 = Inr 150"
proof -
  have h: "monthly_expense_series db_single 7 = [((2024, 3), 150)]"
    by (simp add: eval_defs db_single_def)
  from h predict_single_month [OF h] show ?thesis by (intro conjI)
qed

section \<open>The forecast is never negative\<close>




section \<open>The four rules\<close>

lemma rule_savings_rate_eq:
  "rule_savings_rate ti te recs =
     Inr (recs @ [if 0 < ti then msg_savings_rate (max ((ti - te) / ti) 0) else msg_add_income])"
  by (simp add: rule_savings_rate_def py_div_def Let_def)

lemma rule_volatility_eq:
  assumes "ys = map snd (groupby_sum ym amount (expense_rows df))"
  shows "rule_volatility df recs =
     Inr (recs @ (if 2 \<le> length ys
                     \<and> 1.2 * (sum_list (butlast ys) / real (length (butlast ys))) < last ys
                  then [msg_volatility] else []))"
proof (cases "2 \<le> length ys")
  case False
  then show ?thesis
    unfolding rule_volatility_def Let_def assms by simp
next
  case True
  then have ne: "ys \<noteq> []" and bne: "butlast ys \<noteq> []"
    by (auto simp: butlast_conv_take)
  then have il: "iloc_last ys = Inr (last ys)"
    by (cases ys) (simp_all add: iloc_last_def)
  have mean: "series_mean (butlast ys) = Inr (sum_list (butlast ys) / real (length (butlast ys)))"
    using bne True by (simp add: series_mean_def py_div_def)
  have ene: "expense_rows df \<noteq> []"
    using ne groupby_sum_Nil_iff [of ym amount "expense_rows df"] by (auto simp: assms)
  show ?thesis
    unfolding rule_volatility_def Let_def assms [symmetric]
    using True ene il mean by simp
qed

lemma rule_forecast_eq:
  assumes "predict_next_month_expense db uid = Inr pred"
  shows "rule_forecast db uid ti recs =
     Inr (recs @ [if 0 < ti then msg_pred_target pred (max (ti * 0.2) 0) else msg_pred_only pred])"
  by (simp add: rule_forecast_def assms Let_def)

lemma generate_recommendations_eq:
  assumes "query_user_df db uid = df" and "df \<noteq> []"
    and "monthly_amounts db uid = ys"
    and "total_income_of df = ti" and "total_expense_of df = te"
    and "predict_next_month_expense db uid = Inr pred"
  shows "generate_recommendations db uid =
     Inr ([if 0 < ti then msg_savings_rate (max ((ti - te) / ti) 0) else msg_add_income]
          @ map (\<lambda>(c, v). msg_category c v) (top3 df)
          @ (if 2 \<le> length ys
                 \<and> 1.2 * (sum_list (butlast ys) / real (length (butlast ys))) < last ys
              then [msg_volatility] else [])
          @ [if 0 < ti then msg_pred_target pred (max (ti * 0.2) 0) else msg_pred_only pred])"
proof -
  have ys: "ys = map snd (groupby_sum ym amount (expense_rows df))"
    using assms(1,3) by (simp add: monthly_amounts_def monthly_expense_series_def)
  show ?thesis
    unfolding generate_recommendations_def Let_def assms(1)
    using assms(2)
    by (simp add: assms(4,5) rule_savings_rate_eq rule_top_categories_def
        rule_volatility_eq [OF ys] rule_forecast_eq [OF assms(6)])
qed

section \<open>Rounding and printing\<close>




lemma fmt_f1_20: "fmt_f1 20 = ''20.0''"
  by (simp add: fmt_f1_def Let_def round_half_even_def digits10.simps digit_char_def)

section \<open>The savings rate\<close>

lemma generate_recommendations_ex:
  assumes "query_user_df db uid \<noteq> []"
  obtains pred where "predict_next_month_expense db uid = Inr pred"
    and "generate_recommendations db uid =
     Inr ([if 0 < total_income_of (query_user_df db uid)
           then msg_savings_rate
                 (max ((total_income_of (query_user_df db uid) - total_expense_of (query_user_df db uid))
                        / total_income_of (query_user_df db uid)) 0)
           else msg_add_income]
          @ map (\<lambda>(c, v). msg_category c v) (top3 (query_user_df db uid))
          @ (if 2 \<le> length (monthly_amounts db uid)
                 \<and> 1.2 * (sum_list (butlast (monthly_amounts db uid))
                           / real (length (butlast (monthly_amounts db uid))))
                     < last (monthly_amounts db uid)
              then [msg_volatility] else [])
          @ [if 0 < total_income_of (query_user_df db uid)
             then msg_pred_target pred (max (total_income_of (query_user_df db uid) * 0.2) 0)
             else msg_pred_only pred])"
proof -
  from predict_total obtain pred where p: "predict_next_month_expense db uid = Inr pred"
    by blast
  from generate_recommendations_eq [OF refl assms refl refl refl p] p that
  show thesis by blast
qed



section \<open>The warning is no other message\<close>

lemma msg_volatility_distinct:
  "msg_volatility \<noteq> msg_savings_rate r"
  "msg_volatility \<noteq> msg_add_income"
  "msg_volatility \<noteq> msg_category c v"
  "msg_volatility \<noteq> msg_pred_target p t"
  "msg_volatility \<noteq> msg_pred_only p"
  by (simp_all add: msg_volatility_def msg_savings_rate_def msg_add_income_def
      msg_category_def msg_pred_target_def msg_pred_only_def)

section \<open>The shape of the list\<close>



section \<open>The top categories\<close>
















lemma fmt_f0_examples:
  "fmt_f0 1200 = ''1200''" "fmt_f0 500 = ''500''" "fmt_f0 300 = ''300''"
  by (simp_all add: fmt_f0_def round_half_even_def Let_def digits10.simps digit_char_def)



section \<open>A complete run\<close>

lemma db_saver_facts:
  "query_user_df db_saver 7 \<noteq> []"
  "total_income_of (query_user_df db_saver 7) = 1000"
  "total_expense_of (query_user_df db_saver 7) = 800"
  "monthly_amounts db_saver 7 = [800]"
  "category_totals (query_user_df db_saver 7) = [(''Food'', 300), (''Rent'', 500)]"
  by (simp_all add: eval_defs db_saver_def total_income_of_def total_expense_of_def
      category_totals_def)

lemma fmt_f0_more: "fmt_f0 800 = ''800''" "fmt_f0 200 = ''200''"
  by (simp_all add: fmt_f0_def round_half_even_def Let_def digits10.simps digit_char_def)

text \<open>A complete run: one month of data, income 1000, expenses 500 and 300.\<close>

lemma generate_recommendations_example:
  \<open>generate_recommendations db_saver 7 =
     Inr [''Your overall savings rate is 20.0%. Aim for 20%+ as a baseline.'',
          ''High spend in "Rent" category: '' @ rupee
            @ ''500. Consider setting a monthly cap or finding cheaper alternatives.'',
          ''High spend in "Food" category: '' @ rupee
            @ ''300. Consider setting a monthly cap or finding cheaper alternatives.'',
          ''Predicted next month expense: '' @ rupee
            @ ''800. Set a savings target of at least '' @ rupee @ ''200.'']\<close>
proof -
  have p: "predict_next_month_expense db_saver 7 = Inr 800"
    by (rule predict_single) (rule db_saver_facts)
  have t: "top3 (query_user_df db_saver 7) = [(''Rent'', 500), (''Food'', 300)]"
    by (simp add: top3_def db_saver_facts sort_values_desc_def)
  have r: "max ((1000 - 800) / 1000) 0 * 100 = (20::real)" by simp
  show ?thesis
    unfolding generate_recommendations_eq
      [OF refl db_saver_facts(1) db_saver_facts(4) db_saver_facts(2) db_saver_facts(3) p] t
    by (simp add: msg_savings_rate_def r fmt_f1_20 msg_category_def fmt_f0_examples
        msg_pred_target_def fmt_f0_more)
qed


section \<open>The binary64 program: grouping and the forecast\<close>

lemma groupby_sum64_keys:
  "map fst (groupby_sum64 lib k rows) = sort (remdups (map k rows))"
  by (simp add: groupby_sum64_def comp_def)

lemma length_groupby_sum64: "length (groupby_sum64 lib k rows) = card (k ` set rows)"
  by (simp add: groupby_sum64_def length_remdups_card_conv)

lemma groupby_sum64_Nil_iff: "groupby_sum64 lib k rows = [] \<longleftrightarrow> rows = []"
proof
  assume "groupby_sum64 lib k rows = []"
  then have "card (k ` set rows) = 0"
    using length_groupby_sum64 [of lib k rows] by simp
  then show "rows = []" by simp
next
  assume "rows = []"
  then show "groupby_sum64 lib k rows = []" by (simp add: groupby_sum64_def)
qed

lemma groupby_sum64_cong:
  assumes "\<And>key. filter (\<lambda>r. k r = key) rows' = filter (\<lambda>r. k r = key) rows"
  shows "groupby_sum64 lib k rows' = groupby_sum64 lib k rows"
proof -
  have "key \<in> k ` set rows' \<longleftrightarrow> key \<in> k ` set rows" for key
  proof -
    have "key \<in> k ` set rs \<longleftrightarrow> filter (\<lambda>r. k r = key) rs \<noteq> []" for rs
      by (auto simp: filter_empty_conv)
    then show ?thesis using assms by simp
  qed
  then have "set (map k rows') = set (map k rows)" by auto
  then have keys: "sort (remdups (map k rows')) = sort (remdups (map k rows))"
    by (metis sorted_list_of_set_sort_remdups)
  show ?thesis
    unfolding groupby_sum64_def keys by (simp add: assms)
qed

lemma idx_max_upt: "1 \<le> n \<Longrightarrow> idx_max [1..<n + 1] = Inr n"
proof -
  assume n: "1 \<le> n"
  then have ne: "[1..<n + 1] \<noteq> []" by simp
  then obtain x xs where c: "[1..<n + 1] = x # xs" by (cases "[1..<n + 1]") auto
  have "Max (set [1..<n + 1]) = n"
  proof (rule Max_eqI)
    show "finite (set [1..<n + 1])" by simp
    show "n \<in> set [1..<n + 1]" using n by auto
    show "y \<le> n" if "y \<in> set [1..<n + 1]" for y using that by auto
  qed
  then have "Max (set (x # xs)) = n"
    unfolding c .
  then have "fold max xs x = n"
    by (simp only: Max.set_eq_fold)
  then show ?thesis
    unfolding idx_max_def c by simp
qed

lemma monthly_amounts64_Nil_iff:
  "monthly_amounts64 lib db uid = [] \<longleftrightarrow> expense_rows (query_user_df db uid) = []"
  by (simp add: monthly_amounts64_def groupby_sum64_Nil_iff)

lemma predict64_no_series:
  assumes "monthly_amounts64 lib db uid = []"
  shows "predict_next_month_expense64 lib db uid = Inr (Fin 0)"
proof -
  have "expense_rows (query_user_df db uid) = []"
    using assms by (simp add: monthly_amounts64_Nil_iff)
  then show ?thesis
    by (simp add: predict_next_month_expense64_def Let_def)
qed

lemma predict64_single:
  assumes "monthly_amounts64 lib db uid = [x]"
  shows "predict_next_month_expense64 lib db uid = Inr x"
proof -
  let ?df = "query_user_df db uid"
  let ?m = "groupby_sum64 lib ym (expense_rows ?df)"
  have m: "map snd ?m = [x]"
    using assms by (simp add: monthly_amounts64_def)
  then have len: "length ?m = 1"
    by (metis length_map length_Cons list.size(3) One_nat_def)
  have ne: "expense_rows ?df \<noteq> []"
    using len groupby_sum64_Nil_iff [of lib ym "expense_rows ?df"] by auto
  then have "?df \<noteq> []" by auto
  with ne len m show ?thesis
    by (simp add: predict_next_month_expense64_def Let_def iloc_last64_def)
qed

lemma predict64_many:
  assumes "2 \<le> length (monthly_amounts64 lib db uid)"
  shows "predict_next_month_expense64 lib db uid =
     (case fit64 lib (map (\<lambda>i. Fin (real i)) [1..<length (monthly_amounts64 lib db uid) + 1])
             (monthly_amounts64 lib db uid) of
        Inl e \<Rightarrow> Inl e
      | Inr model \<Rightarrow>
          Inr (py_max (lib_predict lib model
                 (Fin (real (length (monthly_amounts64 lib db uid) + 1)))) (Fin 0)))"
proof -
  let ?df = "query_user_df db uid"
  let ?m = "groupby_sum64 lib ym (expense_rows ?df)"
  have ys: "monthly_amounts64 lib db uid = map snd ?m"
    by (simp add: monthly_amounts64_def)
  have len: "2 \<le> length ?m" using assms by (simp add: ys)
  then have ne: "expense_rows ?df \<noteq> []"
    using groupby_sum64_Nil_iff [of lib ym "expense_rows ?df"] by auto
  then have dfne: "?df \<noteq> []" by auto
  have mx: "idx_max [1..<length ?m + 1] = Inr (length ?m)"
    using len by (intro idx_max_upt) simp
  have nlt: "\<not> length ?m < 2" using len by simp
  have "predict_next_month_expense64 lib db uid =
     (case fit64 lib (map (\<lambda>i. Fin (real i)) [1..<length ?m + 1]) (map snd ?m) of
        Inl e \<Rightarrow> Inl e
      | Inr model \<Rightarrow>
         (case idx_max [1..<length ?m + 1] of
            Inl e \<Rightarrow> Inl e
          | Inr mx \<Rightarrow> Inr (py_max (lib_predict lib model (Fin (real (mx + 1)))) (Fin 0))))"
    unfolding predict_next_month_expense64_def Let_def
    using ne dfne nlt by (simp only: if_False)
  then show ?thesis
    unfolding ys by (simp only: mx sum.case length_map)
qed

section \<open>The binary64 program: the recommendations\<close>

lemma rule_volatility64_eq:
  assumes "ys = map snd (groupby_sum64 lib ym (expense_rows df))"
  shows "rule_volatility64 lib df recs =
     Inr (recs @ (if 2 \<le> length ys
                     \<and> f64_gt (last ys) (f64_mul (fl 1.2) (lib_mean lib (butlast ys)))
                  then [msg_volatility] else []))"
proof (cases "2 \<le> length ys")
  case False
  then show ?thesis
    unfolding rule_volatility64_def Let_def assms by simp
next
  case True
  then have ne: "ys \<noteq> []" by auto
  then have il: "iloc_last64 ys = Inr (last ys)"
    by (cases ys) (simp_all add: iloc_last64_def)
  have ene: "expense_rows df \<noteq> []"
    using ne groupby_sum64_Nil_iff [of lib ym "expense_rows df"] by (auto simp: assms)
  show ?thesis
    unfolding rule_volatility64_def Let_def assms [symmetric]
    using True ene il by simp
qed

lemma generate_recommendations64_eq:
  assumes "query_user_df db uid = df" and "df \<noteq> []"
    and "monthly_amounts64 lib db uid = ys"
    and "lib_sum lib (map amount64 (income_rows df)) = ti"
    and "lib_sum lib (map amount64 (expense_rows df)) = te"
  shows "generate_recommendations64 lib db uid =
     (case predict_next_month_expense64 lib db uid of
        Inl e \<Rightarrow> Inl e
      | Inr pred \<Rightarrow>
          Inr ([if f64_gt ti (Fin 0)
                then msg_savings_rate64 (py_max (f64_div (f64_sub ti te) ti) (Fin 0))
                else msg_add_income]
               @ map (\<lambda>(c, v). msg_category64 c v) (top3_64 lib df)
               @ (if 2 \<le> length ys
                      \<and> f64_gt (last ys) (f64_mul (fl 1.2) (lib_mean lib (butlast ys)))
                   then [msg_volatility] else [])
               @ [if f64_gt ti (Fin 0)
                  then msg_pred_target64 pred (py_max (f64_mul ti (fl 0.2)) (Fin 0))
                  else msg_pred_only64 pred]))"
proof -
  have ys: "ys = map snd (groupby_sum64 lib ym (expense_rows df))"
    using assms(1,3) by (simp add: monthly_amounts64_def)
  show ?thesis
    unfolding generate_recommendations64_def Let_def assms(1)
    using assms(2)
    by (simp add: assms(4,5) rule_savings_rate64_def rule_top_categories64_def
        rule_volatility64_eq [OF ys] rule_forecast64_def Let_def split: sum.splits)
qed

lemma msg_volatility_distinct64:
  "msg_volatility \<noteq> msg_savings_rate64 r"
  "msg_volatility \<noteq> msg_category64 c v"
  "msg_volatility \<noteq> msg_pred_target64 p t"
  "msg_volatility \<noteq> msg_pred_only64 p"
  by (simp_all add: msg_volatility_def msg_savings_rate64_def
      msg_category64_def msg_pred_target64_def msg_pred_only64_def)

lemma msg_volatility_notin_categories64:
  "msg_volatility \<notin> set (map (\<lambda>(c, v). msg_category64 c v) cs)"
  using msg_volatility_distinct64(2) by (induction cs) auto

section \<open>The guards, the clamp and the shape on the binary64 program\<close>

text \<open>
  What the exact program and the binary64 program share: both return at the guard on the
  empty data frame, a forecast on two or more months is never below zero, and a list
  that is returned has the shape of the exact one.
\<close>

lemma empty_input_guard64:
  assumes "query_user_df db uid = []"
  shows "predict_next_month_expense64 lib db uid = Inr (Fin 0)"
    and "generate_recommendations64 lib db uid = Inr [msg_no_data]"
  using assms
  by (simp_all add: predict_next_month_expense64_def generate_recommendations64_def)

lemma py_max_not_below: "\<not> f64_lt (py_max v (Fin 0)) (Fin 0)"
  by (cases v) (simp_all add: py_max_def f64_gt_def)

lemma predict64_not_below_zero:
  assumes "2 \<le> length (monthly_amounts64 lib db uid)"
    and "predict_next_month_expense64 lib db uid = Inr v"
  shows "\<not> f64_lt v (Fin 0)"
proof -
  from assms(2) obtain model where "v = py_max (lib_predict lib model
       (Fin (real (length (monthly_amounts64 lib db uid) + 1)))) (Fin 0)"
    unfolding predict64_many [OF assms(1)] by (auto split: sum.splits)
  then show ?thesis by (simp add: py_max_not_below)
qed

lemma recommendations_shape64:
  assumes "query_user_df db uid \<noteq> []"
    and "generate_recommendations64 lib db uid = Inr recs"
  shows "2 \<le> length recs \<and> length recs \<le> 6"
proof -
  note eq = generate_recommendations64_eq [OF refl assms(1) refl refl refl]
  from assms(2) eq obtain pred where p: "predict_next_month_expense64 lib db uid = Inr pred"
    by (cases "predict_next_month_expense64 lib db uid") auto
  have "length (top3_64 lib (query_user_df db uid)) \<le> 3"
    by (simp add: top3_64_def)
  then show ?thesis
    using assms(2) unfolding eq p by auto
qed

section \<open>Rounding to binary64\<close>

lemmas f64_eval = fl_def norm_up.simps norm_down.simps round_half_even_def Let_def

lemmas eval64_defs =
  monthly_amounts64_def groupby_sum64_def query_user_df_def expense_rows_def income_rows_def
  ym_def tx_def amount64_def lib_seq_def lib_kahan_def sum_seq_def

text \<open>
  The rounding on some values: the literals of the source, a tie above \<open>2^53\<close> that goes
  to the even significand, a subnormal tie, the sum of 0.1 and 0.2.
\<close>

lemma fl_examples:
  "fl 0.1 = Fin (3602879701896397 / 36028797018963968)"
  "fl 0.2 = Fin (3602879701896397 / 18014398509481984)"
  "fl 1.2 = Fin (5404319552844595 / 4503599627370496)"
  "fl (1 / 3) = Fin (6004799503160661 / 18014398509481984)"
  "fl (- 0.1) = Fin (- (3602879701896397 / 36028797018963968))"
  "fl 100 = Fin 100"
  "fl (2 ^ 53 + 1) = Fin (2 ^ 53)"
  "fl (2 ^ 53 + 3) = Fin (2 ^ 53 + 4)"
  "f64_add (fl 0.1) (fl 0.2) = Fin (1351079888211149 / 4503599627370496)"
  by (simp_all add: f64_eval)

lemma fl_subnormal_tie: "fl (3 / 2 ^ 1075) = Fin (1 / 2 ^ 1073)"
  by (simp add: f64_eval)

section \<open>The volatility warning on binary64 values\<close>

text \<open>
  C7, as the code has it: when \<^verbatim>\<open>generate_recommendations\<close> returns a list on a non-empty data
  frame, the volatility warning is in it exactly when the monthly expense series has two
  or more points and its last total is greater than the binary64 product of the constant
  1.2 and the mean of the totals before it. The series [100, 100, 100, 300] warns and
  [100, 100, 100, 110] does not. The rounded product can be below the exact one: on
  [1, 1, 33, 14] the last total equals 1.2 times the mean, and the code warns.
\<close>

theorem volatility_warning64_iff:
  assumes "query_user_df db uid \<noteq> []" and "monthly_amounts64 lib db uid = ys"
    and "generate_recommendations64 lib db uid = Inr recs"
  shows "(msg_volatility \<in> set recs \<longleftrightarrow>
            2 \<le> length ys
            \<and> f64_gt (last ys) (f64_mul (fl 1.2) (lib_mean lib (butlast ys))))
     \<and> (ys = [Fin 100, Fin 100, Fin 100, Fin 300]
          \<and> lib_mean lib [Fin 100, Fin 100, Fin 100] = Fin 100 \<longrightarrow> msg_volatility \<in> set recs)
     \<and> (ys = [Fin 100, Fin 100, Fin 100, Fin 110]
          \<and> lib_mean lib [Fin 100, Fin 100, Fin 100] = Fin 100 \<longrightarrow> msg_volatility \<notin> set recs)
     \<and> (ys = [Fin 1, Fin 1, Fin 33, Fin 14]
          \<and> lib_mean lib [Fin 1, Fin 1, Fin 33] = fl (35 / 3) \<longrightarrow> msg_volatility \<in> set recs)"
proof -
  let ?fire = "2 \<le> length ys
            \<and> f64_gt (last ys) (f64_mul (fl 1.2) (lib_mean lib (butlast ys)))"
  let ?ti = "lib_sum lib (map amount64 (income_rows (query_user_df db uid)))"
  let ?te = "lib_sum lib (map amount64 (expense_rows (query_user_df db uid)))"
  note eq = generate_recommendations64_eq [OF refl assms(1) assms(2) refl refl]
  from assms(3) eq obtain pred where p: "predict_next_month_expense64 lib db uid = Inr pred"
    by (cases "predict_next_month_expense64 lib db uid") auto
  define first where
    "first = (if f64_gt ?ti (Fin 0)
              then msg_savings_rate64 (py_max (f64_div (f64_sub ?ti ?te) ?ti) (Fin 0))
              else msg_add_income)"
  define final where
    "final = (if f64_gt ?ti (Fin 0)
              then msg_pred_target64 pred (py_max (f64_mul ?ti (fl 0.2)) (Fin 0))
              else msg_pred_only64 pred)"
  have f: "msg_volatility \<noteq> first"
    unfolding first_def using msg_volatility_distinct64(1) msg_volatility_distinct(2) by simp
  have l: "msg_volatility \<noteq> final"
    unfolding final_def using msg_volatility_distinct64(3,4) by simp
  have recs: "recs = [first] @ map (\<lambda>(c, v). msg_category64 c v) (top3_64 lib (query_user_df db uid))
                @ (if ?fire then [msg_volatility] else []) @ [final]"
    using assms(3) unfolding eq p first_def final_def by simp
  have iff: "msg_volatility \<in> set recs \<longleftrightarrow> ?fire"
    unfolding recs using f l msg_volatility_notin_categories64
    by (simp del: set_map)
  have m120: "f64_mul (fl (6 / 5)) (Fin 100) = Fin 120"
    by (simp add: f64_eval)
  have m14: "f64_mul (fl (6 / 5)) (fl (35 / 3)) = Fin (7881299347898367 / 562949953421312)"
    by (simp add: f64_eval)
  have fire: "msg_volatility \<in> set recs"
    if "ys = [Fin 100, Fin 100, Fin 100, Fin 300] \<and> lib_mean lib [Fin 100, Fin 100, Fin 100] = Fin 100"
    unfolding iff using that by (simp add: m120 f64_gt_def)
  have quiet: "msg_volatility \<notin> set recs"
    if "ys = [Fin 100, Fin 100, Fin 100, Fin 110] \<and> lib_mean lib [Fin 100, Fin 100, Fin 100] = Fin 100"
    unfolding iff using that by (simp add: m120 f64_gt_def)
  have tie: "msg_volatility \<in> set recs"
    if "ys = [Fin 1, Fin 1, Fin 33, Fin 14] \<and> lib_mean lib [Fin 1, Fin 1, Fin 33] = fl (35 / 3)"
    unfolding iff using that by (simp add: m14 f64_gt_def)
  from iff fire quiet tie show ?thesis by blast
qed

lemma lstsq_closed_returns: "\<exists>a b. lstsq_closed X y = Inr (a, b)"
  by (simp add: lstsq_closed_def Let_def)

lemma fin_index_finite: "list_all is_finite (map (\<lambda>i. Fin (real i)) ns)"
  by (induction ns) (simp_all add: is_finite_def)

lemma predict64_returns:
  assumes "monthly_amounts64 lib db uid = ys"
    and "length ys < 2 \<or> list_all is_finite ys
          \<and> (\<exists>model. lib_lstsq lib (map (\<lambda>i. Fin (real i)) [1..<length ys + 1]) ys = Inr model)"
  shows "\<exists>pred. predict_next_month_expense64 lib db uid = Inr pred"
proof -
  consider "ys = []" | x where "ys = [x]" | "2 \<le> length ys"
    by (cases ys rule: list.exhaust; cases "tl ys") (auto simp: Suc_le_eq)
  then show ?thesis
  proof cases
    case 1
    then show ?thesis using assms(1) by (simp add: predict64_no_series)
  next
    case 2
    then show ?thesis using assms(1) by (simp add: predict64_single)
  next
    case 3
    let ?X = "map (\<lambda>i. Fin (real i)) [1..<length ys + 1]"
    from 3 assms(2) obtain model where fin: "list_all is_finite ys"
      and m: "lib_lstsq lib ?X ys = Inr model" by auto
    have ne: "?X \<noteq> []" and len: "length ?X = length ys" using 3 by auto
    have "fit64 lib ?X ys = Inr model"
      unfolding fit64_def using ne len fin fin_index_finite [of "[1..<length ys + 1]"] m
      by (simp only: if_False simp_thms)
    then show ?thesis
      using predict64_many [of lib db uid] 3 unfolding assms(1) by simp
  qed
qed

lemma generate_recommendations64_returns:
  assumes "predict_next_month_expense64 lib db uid = Inr pred"
  shows "\<exists>recs. generate_recommendations64 lib db uid = Inr recs"
proof (cases "query_user_df db uid = []")
  case True
  then show ?thesis by (simp add: generate_recommendations64_def)
next
  case False
  show ?thesis
    unfolding generate_recommendations64_eq [OF refl False refl refl refl] assms by simp
qed

theorem volatility_warning64_iff_witness:
  "monthly_amounts64 lib_seq db_spike 7 = [Fin 100, Fin 100, Fin 100, Fin 300]
   \<and> \<not> isl (generate_recommendations64 lib_seq db_spike 7)
   \<and> msg_volatility \<in> set (projr (generate_recommendations64 lib_seq db_spike 7))
   \<and> monthly_amounts64 lib_seq db_flat 7 = [Fin 100, Fin 100, Fin 100, Fin 110]
   \<and> \<not> isl (generate_recommendations64 lib_seq db_flat 7)
   \<and> msg_volatility \<notin> set (projr (generate_recommendations64 lib_seq db_flat 7))"
proof -
  have mean: "lib_mean lib_seq [Fin 100, Fin 100, Fin 100] = Fin 100"
    by (simp add: lib_seq_def mean_seq_def sum_seq_def f64_eval)
  have n1: "query_user_df db_spike 7 \<noteq> []" by (simp add: eval_defs db_spike_def)
  have m1: "monthly_amounts64 lib_seq db_spike 7 = [Fin 100, Fin 100, Fin 100, Fin 300]"
    by (simp add: eval64_defs db_spike_def f64_eval)
  have n2: "query_user_df db_flat 7 \<noteq> []" by (simp add: eval_defs db_flat_def)
  have m2: "monthly_amounts64 lib_seq db_flat 7 = [Fin 100, Fin 100, Fin 100, Fin 110]"
    by (simp add: eval64_defs db_flat_def f64_eval)
  have "\<exists>p. predict_next_month_expense64 lib_seq db_spike 7 = Inr p"
    by (rule predict64_returns [OF m1])
      (simp add: is_finite_def lib_seq_def lstsq_closed_returns)
  then obtain recs1 where g1: "generate_recommendations64 lib_seq db_spike 7 = Inr recs1"
    using generate_recommendations64_returns by blast
  have "\<exists>p. predict_next_month_expense64 lib_seq db_flat 7 = Inr p"
    by (rule predict64_returns [OF m2])
      (simp add: is_finite_def lib_seq_def lstsq_closed_returns)
  then obtain recs2 where g2: "generate_recommendations64 lib_seq db_flat 7 = Inr recs2"
    using generate_recommendations64_returns by blast
  from volatility_warning64_iff [OF n1 m1 g1] mean
  have r1: "msg_volatility \<in> set recs1" by blast
  from volatility_warning64_iff [OF n2 m2 g2] mean
  have r2: "msg_volatility \<notin> set recs2" by blast
  from m1 m2 r1 r2 show ?thesis
    unfolding g1 g2 by simp
qed

lemma volatility_warning64_iff_tie:
  assumes "query_user_df db uid \<noteq> []"
    and "monthly_amounts64 lib db uid = [Fin 1, Fin 1, Fin 33, Fin 14]"
    and "generate_recommendations64 lib db uid = Inr recs"
    and "lib_mean lib [Fin 1, Fin 1, Fin 33] = fl (35 / 3)"
  shows "msg_volatility \<in> set recs"
proof -
  note eq = generate_recommendations64_eq [OF refl assms(1) assms(2) refl refl]
  from assms(3) eq obtain pred where p: "predict_next_month_expense64 lib db uid = Inr pred"
    by (cases "predict_next_month_expense64 lib db uid") auto
  have "f64_mul (fl (6 / 5)) (fl (35 / 3)) = Fin (7881299347898367 / 562949953421312)"
    by (simp add: f64_eval)
  then have "f64_gt (Fin 14) (f64_mul (fl 1.2) (lib_mean lib [Fin 1, Fin 1, Fin 33]))"
    by (simp add: assms(4) f64_gt_def)
  then show ?thesis
    using assms(3) unfolding eq p by auto
qed

text \<open>
  With the exact product, as the specification words C7, the rule would be silent on
  \<open>db_tie\<close>: the last month, 14, is not greater than 1.2 times the mean of 1, 1 and 33.
  The binary64 product is 13.999999999999998, and the warning is in the list.
\<close>

theorem volatility_warning_exact_counterexample:
  "monthly_amounts db_tie 7 = [1, 1, 33, 14]
   \<and> \<not> (1.2 * (sum_list [1, 1, 33] / real (length [1, 1, 33 :: real])) < (14 :: real))
   \<and> monthly_amounts64 lib_seq db_tie 7 = [Fin 1, Fin 1, Fin 33, Fin 14]
   \<and> \<not> isl (generate_recommendations64 lib_seq db_tie 7)
   \<and> msg_volatility \<in> set (projr (generate_recommendations64 lib_seq db_tie 7))"
proof -
  have n: "query_user_df db_tie 7 \<noteq> []" by (simp add: eval_defs db_tie_def)
  have e: "monthly_amounts db_tie 7 = [1, 1, 33, 14]"
    by (simp add: eval_defs db_tie_def)
  have m: "monthly_amounts64 lib_seq db_tie 7 = [Fin 1, Fin 1, Fin 33, Fin 14]"
    by (simp add: eval64_defs db_tie_def f64_eval)
  have "\<exists>p. predict_next_month_expense64 lib_seq db_tie 7 = Inr p"
    by (rule predict64_returns [OF m])
      (simp add: is_finite_def lib_seq_def lstsq_closed_returns)
  then obtain recs where g: "generate_recommendations64 lib_seq db_tie 7 = Inr recs"
    using generate_recommendations64_returns by blast
  have mean: "lib_mean lib_seq [Fin 1, Fin 1, Fin 33] = fl (35 / 3)"
    by (simp add: lib_seq_def mean_seq_def sum_seq_def f64_eval)
  from volatility_warning64_iff_tie [OF n m g] mean
  have "msg_volatility \<in> set recs" by blast
  with e m show ?thesis
    unfolding g by simp
qed

section \<open>The order of the rows\<close>

text \<open>
  C8, as the code has it: two orderings of the transaction list give the same forecast
  when the expense rows of each month come in the same relative order in both; the months
  themselves and all other rows may come in any order. Within a month the total is a
  binary64 sum in the order of the rows, whichever way the library adds.
\<close>

theorem predict64_same_order_within_months:
  assumes "mset db' = mset db"
    and "\<forall>k. filter (\<lambda>r. ym r = k) (expense_rows (query_user_df db' uid))
            = filter (\<lambda>r. ym r = k) (expense_rows (query_user_df db uid))"
  shows "predict_next_month_expense64 lib db' uid = predict_next_month_expense64 lib db uid"
proof -
  have q: "mset (query_user_df db' uid) = mset (query_user_df db uid)"
    using assms(1) by (simp add: query_user_df_def)
  then have e: "mset (expense_rows (query_user_df db' uid)) = mset (expense_rows (query_user_df db uid))"
    by (simp add: expense_rows_def)
  have g: "groupby_sum64 lib ym (expense_rows (query_user_df db' uid))
         = groupby_sum64 lib ym (expense_rows (query_user_df db uid))"
    using assms(2) by (intro groupby_sum64_cong) blast
  have n1: "query_user_df db' uid = [] \<longleftrightarrow> query_user_df db uid = []"
    using q by (metis mset_zero_iff)
  have n2: "expense_rows (query_user_df db' uid) = [] \<longleftrightarrow> expense_rows (query_user_df db uid) = []"
    using e by (metis mset_zero_iff)
  show ?thesis
    unfolding predict_next_month_expense64_def Let_def g n1 n2 ..
qed

theorem predict64_same_order_within_months_witness:
  "mset db_rising_shuffled = mset db_rising
   \<and> db_rising_shuffled \<noteq> db_rising
   \<and> monthly_amounts64 lib_seq db_rising 7 = [Fin 100, Fin 200]
   \<and> predict_next_month_expense64 lib_seq db_rising_shuffled 7
       = predict_next_month_expense64 lib_seq db_rising 7"
proof -
  have h1: "mset db_rising_shuffled = mset db_rising"
    by (simp add: db_rising_shuffled_def db_rising_def)
  have h2: "\<forall>k. filter (\<lambda>r. ym r = k) (expense_rows (query_user_df db_rising_shuffled 7))
            = filter (\<lambda>r. ym r = k) (expense_rows (query_user_df db_rising 7))"
    by (auto simp: eval_defs db_rising_shuffled_def db_rising_def)
  have d: "db_rising_shuffled \<noteq> db_rising"
    by (simp add: db_rising_shuffled_def db_rising_def tx_def)
  have m: "monthly_amounts64 lib_seq db_rising 7 = [Fin 100, Fin 200]"
    by (simp add: eval64_defs db_rising_def f64_eval)
  from h1 d m predict64_same_order_within_months [OF h1 h2, of lib_seq]
  show ?thesis by (intro conjI)
qed

text \<open>
  For every permutation, as the specification words C8, the forecast is not the same:
  \<open>db_order_a\<close> and \<open>db_order_b\<close> hold the same rows, the three expenses of January in two
  orders; the forecast is 0.7000000000000001 on one and 0.7 on the other, with plain and
  with compensated summation.
\<close>

theorem predict_order_counterexample:
  "mset db_order_b = mset db_order_a
   \<and> predict_next_month_expense64 lib_seq db_order_a 7
       = Inr (Fin (6305039478318695 / 9007199254740992))
   \<and> predict_next_month_expense64 lib_seq db_order_b 7
       = Inr (Fin (3152519739159347 / 4503599627370496))
   \<and> predict_next_month_expense64 lib_kahan db_order_a 7
       = Inr (Fin (6305039478318695 / 9007199254740992))
   \<and> predict_next_month_expense64 lib_kahan db_order_b 7
       = Inr (Fin (3152519739159347 / 4503599627370496))"
proof -
  have p: "mset db_order_b = mset db_order_a"
    by (simp add: db_order_a_def db_order_b_def)
  have a1: "monthly_amounts64 lib_seq db_order_a 7 = [Fin (6305039478318695 / 9007199254740992)]"
    by (simp add: eval64_defs db_order_a_def f64_eval)
  have b1: "monthly_amounts64 lib_seq db_order_b 7 = [Fin (3152519739159347 / 4503599627370496)]"
    by (simp add: eval64_defs db_order_b_def f64_eval)
  have a2: "monthly_amounts64 lib_kahan db_order_a 7 = [Fin (6305039478318695 / 9007199254740992)]"
    by (simp add: eval64_defs db_order_a_def f64_eval sum_kahan_def kahan_step_def f64_sub_def)
  have b2: "monthly_amounts64 lib_kahan db_order_b 7 = [Fin (3152519739159347 / 4503599627370496)]"
    by (simp add: eval64_defs db_order_b_def f64_eval sum_kahan_def kahan_step_def f64_sub_def)
  from p predict64_single [OF a1] predict64_single [OF b1]
    predict64_single [OF a2] predict64_single [OF b2]
  show ?thesis by (intro conjI)
qed

section \<open>What can raise\<close>

text \<open>
  C9, as the code has it: \<^verbatim>\<open>generate_recommendations\<close> raises only out of
  \<^verbatim>\<open>LinearRegression().fit\<close>, and only when the monthly expense series has two or more
  points. No division raises (the rate is computed behind \<open>total_income > 0\<close>, and a
  binary64 division does not raise), and \<^verbatim>\<open>iloc[-1]\<close> is reached on non-empty series only.
  With fewer than two months, or when all monthly totals are finite and the solver
  returns, a list is returned. With two or more months of which one has an infinite
  total, \<^verbatim>\<open>fit\<close> rejects the totals with \<^verbatim>\<open>ValueError\<close>.
\<close>

theorem generate_recommendations64_raises_only_in_fit:
  assumes "monthly_amounts64 lib db uid = ys"
    and "X = map (\<lambda>i. Fin (real i)) [1..<length ys + 1]"
  shows "(\<forall>e. generate_recommendations64 lib db uid = Inl e \<longrightarrow>
             2 \<le> length ys \<and> fit64 lib X ys = Inl e)
       \<and> (length ys < 2 \<longrightarrow> (\<exists>recs. generate_recommendations64 lib db uid = Inr recs))
       \<and> (list_all is_finite ys \<and> (\<exists>model. lib_lstsq lib X ys = Inr model) \<longrightarrow>
            (\<exists>recs. generate_recommendations64 lib db uid = Inr recs))
       \<and> (2 \<le> length ys \<and> \<not> list_all is_finite ys \<longrightarrow>
            generate_recommendations64 lib db uid = Inl ValueError)"
proof (intro conjI allI impI)
  fix e
  assume err: "generate_recommendations64 lib db uid = Inl e"
  then have ne: "query_user_df db uid \<noteq> []"
    by (auto simp: generate_recommendations64_def)
  from err have perr: "predict_next_month_expense64 lib db uid = Inl e"
    unfolding generate_recommendations64_eq [OF refl ne assms(1) refl refl]
    by (cases "predict_next_month_expense64 lib db uid") auto
  have len: "2 \<le> length ys"
  proof (rule ccontr)
    assume "\<not> 2 \<le> length ys"
    then have "length ys < 2" by simp
    with predict64_returns [OF assms(1)] perr show False by auto
  qed
  from perr have "fit64 lib X ys = Inl e"
    using predict64_many [of lib db uid] len unfolding assms(1) assms(2)
    by (cases "fit64 lib (map (\<lambda>i. Fin (real i)) [1..<length ys + 1]) ys") auto
  with len show "2 \<le> length ys" and "fit64 lib X ys = Inl e" by blast+
next
  assume "length ys < 2"
  with predict64_returns [OF assms(1)] obtain pred
    where "predict_next_month_expense64 lib db uid = Inr pred" by blast
  then show "\<exists>recs. generate_recommendations64 lib db uid = Inr recs"
    by (rule generate_recommendations64_returns)
next
  assume "list_all is_finite ys \<and> (\<exists>model. lib_lstsq lib X ys = Inr model)"
  with predict64_returns [OF assms(1)] obtain pred
    where "predict_next_month_expense64 lib db uid = Inr pred"
    unfolding assms(2) by blast
  then show "\<exists>recs. generate_recommendations64 lib db uid = Inr recs"
    by (rule generate_recommendations64_returns)
next
  assume a: "2 \<le> length ys \<and> \<not> list_all is_finite ys"
  then have ysne: "ys \<noteq> []" by auto
  then have ne: "query_user_df db uid \<noteq> []"
    using assms(1) monthly_amounts64_Nil_iff [of lib db uid] by auto
  have "fit64 lib (map (\<lambda>i. Fin (real i)) [1..<length ys + 1]) ys = Inl ValueError"
    using a by (simp add: fit64_def)
  then have "predict_next_month_expense64 lib db uid = Inl ValueError"
    using predict64_many [of lib db uid] a unfolding assms(1) by simp
  then show "generate_recommendations64 lib db uid = Inl ValueError"
    unfolding generate_recommendations64_eq [OF refl ne assms(1) refl refl] by simp
qed

theorem generate_recommendations64_raises_only_in_fit_witness:
  "monthly_amounts64 lib_seq db_spike 7 = [Fin 100, Fin 100, Fin 100, Fin 300]
   \<and> list_all is_finite [Fin 100, Fin 100, Fin 100, Fin 300]
   \<and> \<not> isl (generate_recommendations64 lib_seq db_spike 7)
   \<and> monthly_amounts64 lib_seq db_saver 7 = [Fin 800]
   \<and> \<not> isl (generate_recommendations64 lib_seq db_saver 7)"
proof -
  have m1: "monthly_amounts64 lib_seq db_spike 7 = [Fin 100, Fin 100, Fin 100, Fin 300]"
    by (simp add: eval64_defs db_spike_def f64_eval)
  have f1: "list_all is_finite [Fin 100, Fin 100, Fin 100, Fin 300]"
    by (simp add: is_finite_def)
  have s1: "\<exists>model. lib_lstsq lib_seq
      (map (\<lambda>i. Fin (real i)) [1..<length [Fin 100, Fin 100, Fin 100, Fin 300] + 1])
      [Fin 100, Fin 100, Fin 100, Fin 300] = Inr model"
    using lstsq_closed_returns by (simp add: lib_seq_def)
  from generate_recommendations64_raises_only_in_fit [OF m1 refl] f1 s1
  have r1: "\<exists>recs. generate_recommendations64 lib_seq db_spike 7 = Inr recs" by blast
  have m2: "monthly_amounts64 lib_seq db_saver 7 = [Fin 800]"
    by (simp add: eval64_defs db_saver_def f64_eval)
  from generate_recommendations64_raises_only_in_fit [OF m2 refl]
  have r2: "\<exists>recs. generate_recommendations64 lib_seq db_saver 7 = Inr recs" by simp
  from r1 r2 m1 f1 m2 show ?thesis by auto
qed

lemma big_amount_binary64: "fl big_amount = Fin big_amount"
  unfolding big_amount_def by (simp add: f64_eval)

lemma big_amount_twice: "fl (2 * big_amount) = PInf"
  unfolding big_amount_def by (simp add: f64_eval)

lemma big_amount_pos: "0 \<le> big_amount"
  by (simp add: big_amount_def)

text \<open>
  On every validated input, as the specification words C9, the function does not
  return: in \<open>db_overflow\<close> every amount is a finite binary64 value that is not negative,
  every kind is \<^verbatim>\<open>income\<close> or \<^verbatim>\<open>expense\<close> and the dates are valid;
  the two expenses of January, \<open>2^1023\<close> each (about 8.99e307), add up to infinity, and
  with the month of February the totals reach \<^verbatim>\<open>fit\<close>, which raises \<^verbatim>\<open>ValueError\<close>.
\<close>

theorem generate_recommendations_overflow_counterexample:
  "list_all (\<lambda>r. 0 \<le> amount r \<and> amount64 r = Fin (amount r)
              \<and> (ttype r = ''income'' \<or> ttype r = ''expense'')) db_overflow
   \<and> monthly_amounts64 lib_seq db_overflow 7 = [PInf, Fin 1]
   \<and> generate_recommendations64 lib_seq db_overflow 7 = Inl ValueError"
proof -
  have one: "fl 1 = Fin 1" by (simp add: f64_eval)
  have v: "list_all (\<lambda>r. 0 \<le> amount r \<and> amount64 r = Fin (amount r)
              \<and> (ttype r = ''income'' \<or> ttype r = ''expense'')) db_overflow"
    by (simp add: db_overflow_def tx_def amount64_def big_amount_pos big_amount_binary64 one)
  have m: "monthly_amounts64 lib_seq db_overflow 7 = [PInf, Fin 1]"
    by (simp add: eval64_defs db_overflow_def big_amount_binary64 big_amount_twice one)
  have ne: "query_user_df db_overflow 7 \<noteq> []"
    by (simp add: query_user_df_def db_overflow_def tx_def)
  have "fit64 lib_seq (map (\<lambda>i. Fin (real i)) [1..<length [PInf, Fin 1] + 1]) [PInf, Fin 1]
      = Inl ValueError"
    by (simp add: fit64_def is_finite_def)
  then have "predict_next_month_expense64 lib_seq db_overflow 7 = Inl ValueError"
    using predict64_many [of lib_seq db_overflow 7] unfolding m by simp
  then have "generate_recommendations64 lib_seq db_overflow 7 = Inl ValueError"
    unfolding generate_recommendations64_eq [OF refl ne m refl refl] by simp
  with v m show ?thesis by (intro conjI)
qed

end
